theory Spec2Isabelle
  imports Main "HOL-Library.Char_ord" "HOL-Library.List_Lexorder"
begin

section \<open>Strings and the host platform\<close>

text \<open>
  Strings are \<^typ>\<open>string\<close>, read as the UTF-8 bytes of the JavaScript string. The two
  characters the naming rules look at, the digits and the slash, are ASCII: in well-formed
  UTF-8 their bytes never occur inside the encoding of another character, so testing and
  replacing them byte by byte is what the regular expressions of the source do.
\<close>

definition nl :: string where
  "nl = [CHR 0x0A]"

definition apos :: string where
  "apos = [CHR 0x27]"

text \<open>\<^verbatim>\<open>Array.prototype.join\<close>.\<close>

fun join_with :: "string \<Rightarrow> string list \<Rightarrow> string" where
  "join_with sep [] = []"
| "join_with sep [x] = x"
| "join_with sep (x # y # ys) = x @ sep @ join_with sep (y # ys)"

text \<open>
  A template literal whose every line, the last included, ends with a line feed: the shape
  of all the templates of the source.
\<close>

definition template :: "string list \<Rightarrow> string" where
  "template ls = concat (map (\<lambda>l. l @ nl) ls)"

subsection \<open>\<^verbatim>\<open>path.join\<close> of Node (POSIX)\<close>

fun split_slash :: "string \<Rightarrow> string list" where
  "split_slash [] = [[]]"
| "split_slash (c # cs) =
     (if c = CHR ''/'' then [] # split_slash cs
      else (case split_slash cs of [] \<Rightarrow> [[c]] | s # ss \<Rightarrow> (c # s) # ss))"

text \<open>
  \<^verbatim>\<open>normalizeString\<close>: empty segments and \<^verbatim>\<open>.\<close> are dropped, \<^verbatim>\<open>..\<close> removes the segment
  before it, and is kept only where the path may climb above its start. The accumulator
  holds the segments kept so far, the last one first.
\<close>

fun normalizeSegments :: "bool \<Rightarrow> string list \<Rightarrow> string list \<Rightarrow> string list" where
  "normalizeSegments allowAboveRoot acc [] = rev acc"
| "normalizeSegments allowAboveRoot acc (s # ss) =
     (if s = [] \<or> s = ''.'' then normalizeSegments allowAboveRoot acc ss
      else if s = ''..'' then
        (case acc of
           [] \<Rightarrow> normalizeSegments allowAboveRoot (if allowAboveRoot then [''..''] else []) ss
         | t # ts \<Rightarrow>
             if t = ''..'' then normalizeSegments allowAboveRoot (''..'' # acc) ss
             else normalizeSegments allowAboveRoot ts ss)
      else normalizeSegments allowAboveRoot (s # acc) ss)"

definition normalizeString :: "string \<Rightarrow> bool \<Rightarrow> string" where
  "normalizeString path allowAboveRoot =
     join_with ''/'' (normalizeSegments allowAboveRoot [] (split_slash path))"

definition path_normalize :: "string \<Rightarrow> string" where
  "path_normalize path =
     (if path = [] then ''.''
      else
        let isAbsolute = (hd path = CHR ''/'');
            trailingSeparator = (last path = CHR ''/'');
            p = normalizeString path (\<not> isAbsolute)
        in if p = [] then (if isAbsolute then ''/'' else if trailingSeparator then ''./'' else ''.'')
           else (if isAbsolute then ''/'' else []) @ p @ (if trailingSeparator then ''/'' else []))"

definition path_join :: "string list \<Rightarrow> string" where
  "path_join args =
     (case filter (\<lambda>arg. arg \<noteq> []) args of
        [] \<Rightarrow> ''.''
      | joined \<Rightarrow> path_normalize (join_with ''/'' joined))"

subsection \<open>\<^verbatim>\<open>JSON.stringify(value, null, gap)\<close>\<close>

text \<open>
  The values a document holds. A number is carried as its ECMAScript rendering, which is
  what the serializer prints for it.
\<close>

datatype json =
    JNull
  | JBool bool
  | JNumber string
  | JString string
  | JArray "json list"
  | JObject "(string \<times> json) list"

definition hexDigit :: "nat \<Rightarrow> char" where
  "hexDigit n = ''0123456789abcdef'' ! (n mod 16)"

definition quoteChar :: "char \<Rightarrow> string" where
  "quoteChar c =
     (if c = CHR 0x22 then [CHR 0x5C, CHR 0x22]
      else if c = CHR 0x5C then [CHR 0x5C, CHR 0x5C]
      else if c = CHR 0x08 then [CHR 0x5C, CHR ''b'']
      else if c = CHR 0x0C then [CHR 0x5C, CHR ''f'']
      else if c = CHR 0x0A then [CHR 0x5C, CHR ''n'']
      else if c = CHR 0x0D then [CHR 0x5C, CHR ''r'']
      else if c = CHR 0x09 then [CHR 0x5C, CHR ''t'']
      else if (of_char c :: nat) < 32 then
        [CHR 0x5C, CHR ''u'', CHR ''0'', CHR ''0'',
         hexDigit (of_char c div 16), hexDigit (of_char c)]
      else [c])"

definition quoteJSONString :: "string \<Rightarrow> string" where
  "quoteJSONString s = [CHR 0x22] @ concat (map quoteChar s) @ [CHR 0x22]"

fun serializeJSON :: "string \<Rightarrow> string \<Rightarrow> json \<Rightarrow> string"
  and serializeElements :: "string \<Rightarrow> string \<Rightarrow> json list \<Rightarrow> string list"
  and serializeMembers :: "string \<Rightarrow> string \<Rightarrow> (string \<times> json) list \<Rightarrow> string list"
where
  "serializeJSON gap indent JNull = ''null''"
| "serializeJSON gap indent (JBool b) = (if b then ''true'' else ''false'')"
| "serializeJSON gap indent (JNumber n) = n"
| "serializeJSON gap indent (JString s) = quoteJSONString s"
| "serializeJSON gap indent (JArray xs) =
     (if xs = [] then ''[]''
      else if gap = [] then ''['' @ join_with '','' (serializeElements gap indent xs) @ '']''
      else ''['' @ nl @ (indent @ gap)
           @ join_with ('','' @ nl @ (indent @ gap)) (serializeElements gap (indent @ gap) xs)
           @ nl @ indent @ '']'')"
| "serializeJSON gap indent (JObject ms) =
     (if ms = [] then ''{}''
      else if gap = [] then ''{'' @ join_with '','' (serializeMembers gap indent ms) @ ''}''
      else ''{'' @ nl @ (indent @ gap)
           @ join_with ('','' @ nl @ (indent @ gap)) (serializeMembers gap (indent @ gap) ms)
           @ nl @ indent @ ''}'')"
| "serializeElements gap indent [] = []"
| "serializeElements gap indent (x # xs) =
     serializeJSON gap indent x # serializeElements gap indent xs"
| "serializeMembers gap indent [] = []"
| "serializeMembers gap indent ((k, v) # ms) =
     (quoteJSONString k @ (if gap = [] then '':'' else '': '') @ serializeJSON gap indent v)
       # serializeMembers gap indent ms"

definition JSON_stringify :: "json \<Rightarrow> nat \<Rightarrow> string" where
  "JSON_stringify v space = serializeJSON (replicate (min space 10) CHR '' '') [] v"

section \<open>Naming helpers\<close>

text \<open>\<^verbatim>\<open>/^[0-9]/.test(str)\<close> looks at the first character only.\<close>

definition isDigit :: "char \<Rightarrow> bool" where
  "isDigit c = (c \<in> set ''0123456789'')"

definition startsWithNumber :: "string \<Rightarrow> bool" where
  "startsWithNumber str = (case str of [] \<Rightarrow> False | c # _ \<Rightarrow> isDigit c)"

definition leftPadWithUnderscoreIfStartsWithNumber :: "string \<Rightarrow> string" where
  "leftPadWithUnderscoreIfStartsWithNumber str =
     (if startsWithNumber str then ''_'' @ str else str)"

text \<open>\<^verbatim>\<open>str.replace(/\//g, '__')\<close>: a scan from the left, every slash replaced.\<close>

fun replaceSlashes :: "string \<Rightarrow> string" where
  "replaceSlashes [] = []"
| "replaceSlashes (c # cs) =
     (if c = CHR ''/'' then ''__'' @ replaceSlashes cs else c # replaceSlashes cs)"

definition idToFileName :: "string \<Rightarrow> string" where
  "idToFileName ident = replaceSlashes (leftPadWithUnderscoreIfStartsWithNumber ident)"

section \<open>Data model\<close>

text \<open>
  The write cache, \<^verbatim>\<open>Record<FilePath, DocumentHash>\<close>, created empty by
  \<^verbatim>\<open>generateDotpkgStream\<close> and shared by all its passes.
\<close>

type_synonym FilePath = string
type_synonym DocumentHash = string
type_synonym WrittenFilesCache = "FilePath \<rightharpoonup> DocumentHash"

text \<open>
  A document type definition and the schema. A JavaScript object used as a map is an
  association list in the order \<^verbatim>\<open>Object.values\<close> enumerates it; the source never sorts.
\<close>

record documentTypeDef =
  name :: string
  isSingleton :: bool

record schemaDef =
  documentTypeDefMap :: "(string \<times> documentTypeDef) list"

text \<open>
  A document. \<open>doc_id\<close> is its \<^verbatim>\<open>_id\<close>, declared a string by the document type;
  \<open>doc_props\<close> are its own properties in enumeration order (\<^verbatim>\<open>_id\<close> among them), which
  \<^verbatim>\<open>document[typeNameField]\<close> reads and \<^verbatim>\<open>JSON.stringify(document, null, 2)\<close> prints.
\<close>

record document =
  doc_id :: string
  doc_props :: "(string \<times> json) list"

record cacheItem =
  document :: document
  item_documentHash :: DocumentHash

record cache =
  cacheItemsMap :: "(string \<times> cacheItem) list"

record fieldOptions =
  typeFieldName :: string

record pluginOptions =
  fieldOptions :: fieldOptions

record generationOptions =
  sourcePluginType :: string
  options :: pluginOptions

record GenerateInfo =
  documentCount :: nat

text \<open>The argument of the write function: a planned file.\<close>

record artifact =
  filePath :: FilePath
  content :: string
  documentHash :: "DocumentHash option"

text \<open>
  What the module imports and this development does not define: the note and the type
  renderer of the sibling modules, the \<^verbatim>\<open>camel-case\<close> and inflection libraries, the two
  first-character helpers, and the serializations of the schema and of the snapshot that
  the debug branch writes.
\<close>

record externals =
  autogeneratedNote :: string
  renderTypes :: "schemaDef \<Rightarrow> generationOptions \<Rightarrow> string"
  camelCase :: "string \<Rightarrow> string"
  singularize :: "string \<Rightarrow> string"
  pluralize :: "string \<Rightarrow> string"
  lowercaseFirstChar :: "string \<Rightarrow> string"
  uppercaseFirstChar :: "string \<Rightarrow> string"
  stringifySchemaDef :: "schemaDef \<Rightarrow> string"
  stringifyCache :: "cache \<Rightarrow> string"

text \<open>
  File system operations are logged in the order they are issued. The host of one pass
  says whether \<^verbatim>\<open>CL_DEBUG\<close> is set, with which error code (if any) \<^verbatim>\<open>fsPromise.mkdir\<close>
  rejects for a directory, and whether \<^verbatim>\<open>fsPromise.writeFile\<close> resolves for a file.
\<close>

datatype fs_op = Mkdir string | WriteFile FilePath string

datatype js_exception = TypeError | FsException fs_op

datatype GenerateDotpkgError =
    UnknownFSError js_exception
  | MkdirError
  | SourceProvideSchemaError
  | SourceFetchDataError

record host =
  CL_DEBUG :: bool
  fsPromise_mkdir :: "string \<Rightarrow> string option"
  fsPromise_writeFile :: "FilePath \<Rightarrow> string \<Rightarrow> bool"

text \<open>\<^verbatim>\<open>Array.prototype.map\<close> with a callback that may throw: the first exception wins.\<close>

fun mapThrowing :: "('a \<Rightarrow> js_exception + 'b) \<Rightarrow> 'a list \<Rightarrow> js_exception + 'b list" where
  "mapThrowing f [] = Inr []"
| "mapThrowing f (x # xs) =
     (case f x of
        Inl e \<Rightarrow> Inl e
      | Inr y \<Rightarrow> (case mapThrowing f xs of Inl e \<Rightarrow> Inl e | Inr ys \<Rightarrow> Inr (y # ys)))"

section \<open>Generated file contents\<close>

definition getDataVariableName :: "externals \<Rightarrow> documentTypeDef \<Rightarrow> string" where
  "getDataVariableName ext docDef =
     (if isSingleton docDef then lowercaseFirstChar ext (singularize ext (name docDef))
      else ''all'' @ uppercaseFirstChar ext (pluralize ext (name docDef)))"

definition makeVariableName :: "externals \<Rightarrow> string \<Rightarrow> string" where
  "makeVariableName ext ident = camelCase ext (idToFileName ident)"

text \<open>
  For a singleton the first identifier is read with a non-null assertion. On an empty
  list it is \<^verbatim>\<open>undefined\<close>, which the digit test lets through and on which \<^verbatim>\<open>.replace\<close>
  throws a \<^verbatim>\<open>TypeError\<close>.
\<close>

definition makeDataExportFile :: "externals \<Rightarrow> documentTypeDef \<Rightarrow> string list \<Rightarrow> js_exception + string" where
  "makeDataExportFile ext docDef documentIds =
     (let dataVariableName = getDataVariableName ext docDef in
      if isSingleton docDef then
        (case documentIds of
           [] \<Rightarrow> Inl TypeError
         | documentId # _ \<Rightarrow>
             Inr (template
               [''// '' @ autogeneratedNote ext,
                ''export { default as '' @ dataVariableName @ '' } from '' @ apos @ ''./''
                  @ name docDef @ ''/'' @ idToFileName documentId @ ''.json'' @ apos]))
      else
        (let docImports =
               join_with nl
                 (map (\<lambda>i. ''import '' @ makeVariableName ext i @ '' from '' @ apos @ ''./''
                              @ name docDef @ ''/'' @ idToFileName i @ ''.json'' @ apos)
                    documentIds)
         in Inr (template
               [''// '' @ autogeneratedNote ext,
                [],
                docImports,
                [],
                ''export const '' @ dataVariableName @ '' = [''
                  @ join_with '', '' (map (makeVariableName ext) documentIds) @ '']''])))"

definition makeIndexJs :: "externals \<Rightarrow> schemaDef \<Rightarrow> string" where
  "makeIndexJs ext schemaDef =
     (let dataVariableNames =
            map (\<lambda>docDef. (docDef, getDataVariableName ext docDef))
              (map snd (documentTypeDefMap schemaDef));
          constReexports =
            join_with nl
              (map (\<lambda>(_, dataVariableName).
                      ''export * from '' @ apos @ ''./'' @ dataVariableName @ ''.mjs'' @ apos)
                 dataVariableNames);
          constImportsForAllDocuments =
            join_with nl
              (map (\<lambda>(_, dataVariableName).
                      ''import { '' @ dataVariableName @ '' } from '' @ apos @ ''./''
                        @ dataVariableName @ ''.mjs'' @ apos)
                 dataVariableNames);
          allDocuments =
            join_with '', ''
              (map (\<lambda>(docDef, dataVariableName).
                      if isSingleton docDef then dataVariableName else ''...'' @ dataVariableName)
                 dataVariableNames)
      in template
           [''// '' @ autogeneratedNote ext,
            [],
            ''export { isType } from '' @ apos @ ''contentlayer/client'' @ apos,
            [],
            constReexports,
            constImportsForAllDocuments,
            [],
            ''export const allDocuments = ['' @ allDocuments @ '']''])"

definition makeHelperTypes :: "externals \<Rightarrow> string" where
  "makeHelperTypes ext =
     template
       [''// '' @ autogeneratedNote ext,
        [],
        ''export { isType } from '' @ apos @ ''contentlayer/client'' @ apos]"

definition makeDataTypes :: "externals \<Rightarrow> schemaDef \<Rightarrow> string" where
  "makeDataTypes ext schemaDef =
     (let dataConsts =
            join_with nl
              (map (\<lambda>(docDef, typeName, dataVariableName).
                      ''export declare const '' @ dataVariableName @ '': '' @ typeName
                        @ (if isSingleton docDef then [] else ''[]''))
                 (map (\<lambda>docDef. (docDef, name docDef, getDataVariableName ext docDef))
                    (map snd (documentTypeDefMap schemaDef))));
          documentTypeNames =
            join_with '', '' (map name (map snd (documentTypeDefMap schemaDef)))
      in template
           [''// '' @ autogeneratedNote ext,
            [],
            ''import { '' @ documentTypeNames @ '', DocumentTypes } from '' @ apos @ ''../types'' @ apos,
            [],
            dataConsts,
            [],
            ''export declare const allDocuments: DocumentTypes[]'',
            []])"

definition packageJson :: json where
  "packageJson =
     JObject
       [(''name'', JString ''dot-contentlayer''),
        (''description'', JString ''This package is auto-generated by Contentlayer''),
        (''version'', JString ''0.0.0''),
        (''exports'',
           JObject
             [(''./data'', JObject [(''import'', JString ''./data/index.mjs'')]),
              (''./types'', JObject [(''import'', JString ''./types/index.mjs'')])]),
        (''typesVersions'',
           JObject
             [(''*'',
                 JObject
                   [(''data'', JArray [JString ''./data'']),
                    (''types'', JArray [JString ''./types''])])])]"

definition makePackageJson :: string where
  "makePackageJson = JSON_stringify packageJson 2"

section \<open>The selective writer\<close>

text \<open>
  \<^verbatim>\<open>writeFileWithWrittenFilesCache\<close> in three steps. The check compares the cache entry
  of the exact path with the supplied hash (\<^verbatim>\<open>documentHash !== undefined && ... ===\<close>).
  The write is \<^verbatim>\<open>fsPromise.writeFile\<close>. The recording step runs after the awaited write
  has resolved and tests the hash for truthiness (\<^verbatim>\<open>if (documentHash)\<close>): \<^verbatim>\<open>undefined\<close>
  and the empty string are both falsy.

  The cache is a plain object; the names it inherits from \<^verbatim>\<open>Object.prototype\<close> hold no
  dot, and every path written here ends in a file name with an extension, so a lookup
  never meets them.
\<close>

definition fileIsUpToDate :: "WrittenFilesCache \<Rightarrow> artifact \<Rightarrow> bool" where
  "fileIsUpToDate writtenFilesCache a =
     (case documentHash a of
        None \<Rightarrow> False
      | Some h \<Rightarrow> writtenFilesCache (filePath a) = Some h)"

definition recordWrittenFile :: "WrittenFilesCache \<Rightarrow> artifact \<Rightarrow> WrittenFilesCache" where
  "recordWrittenFile writtenFilesCache a =
     (case documentHash a of
        None \<Rightarrow> writtenFilesCache
      | Some h \<Rightarrow> if h \<noteq> [] then writtenFilesCache(filePath a \<mapsto> h) else writtenFilesCache)"

definition writeOp :: "artifact \<Rightarrow> fs_op" where
  "writeOp a = WriteFile (filePath a) (content a)"

definition writeResolves :: "host \<Rightarrow> artifact \<Rightarrow> bool" where
  "writeResolves h a = fsPromise_writeFile h (filePath a) (content a)"

text \<open>
  One call run to its end: the outcome, the cache afterwards, the file system operations
  issued.
\<close>

definition writeFileWithWrittenFilesCache ::
  "host \<Rightarrow> WrittenFilesCache \<Rightarrow> artifact \<Rightarrow> (js_exception + unit) \<times> WrittenFilesCache \<times> fs_op list" where
  "writeFileWithWrittenFilesCache h writtenFilesCache a =
     (if fileIsUpToDate writtenFilesCache a then (Inr (), writtenFilesCache, [])
      else if writeResolves h a then (Inr (), recordWrittenFile writtenFilesCache a, [writeOp a])
      else (Inl (FsException (writeOp a)), writtenFilesCache, [writeOp a]))"

text \<open>
  \<^verbatim>\<open>Promise.all(files.map(writeFile))\<close>. Each call runs synchronously up to its
  \<^verbatim>\<open>await\<close>, so every check reads the cache as the pass found it and all the writes that
  are not skipped are issued, in order, before any of them completes. Each write that
  resolves then records its hash, also when another one rejects; the recordings are taken
  in the order of issue (the order matters only between two files of one pass that share
  a path). The pass fails if one write rejects; of several rejections the one of the file
  issued first is reported (in JavaScript: the one that comes first in time).
\<close>

definition Promise_all_writeFile ::
  "host \<Rightarrow> WrittenFilesCache \<Rightarrow> artifact list \<Rightarrow> (js_exception + unit) \<times> WrittenFilesCache \<times> fs_op list" where
  "Promise_all_writeFile h writtenFilesCache files =
     (let pending = filter (\<lambda>a. \<not> fileIsUpToDate writtenFilesCache a) files in
      ((case filter (\<lambda>a. \<not> writeResolves h a) pending of
          [] \<Rightarrow> Inr ()
        | a # _ \<Rightarrow> Inl (FsException (writeOp a))),
       foldl recordWrittenFile writtenFilesCache (filter (writeResolves h) pending),
       map writeOp pending))"

text \<open>
  The \<^verbatim>\<open>mkdir\<close> helper swallows \<^verbatim>\<open>EEXIST\<close> and rethrows everything else. All the
  directories of a pass are made at once, and one failure fails the pass.
\<close>

definition mkdir :: "host \<Rightarrow> string \<Rightarrow> js_exception + unit" where
  "mkdir h dirPath =
     (case fsPromise_mkdir h dirPath of
        None \<Rightarrow> Inr ()
      | Some code \<Rightarrow> if code \<noteq> ''EEXIST'' then Inl (FsException (Mkdir dirPath)) else Inr ())"

definition Promise_all_mkdir :: "host \<Rightarrow> string list \<Rightarrow> (js_exception + unit) \<times> fs_op list" where
  "Promise_all_mkdir h dirPaths =
     ((case filter (\<lambda>d. mkdir h d \<noteq> Inr ()) dirPaths of
         [] \<Rightarrow> Inr ()
       | d # _ \<Rightarrow> Inl (FsException (Mkdir d))),
      map Mkdir dirPaths)"

section \<open>One pass: \<^verbatim>\<open>writeFilesForCache_\<close>\<close>

definition withPrefix :: "string \<Rightarrow> string list \<Rightarrow> string" where
  "withPrefix targetPath segments = path_join (targetPath # segments)"

text \<open>
  The debug branch: three awaited operations in sequence, straight on \<^verbatim>\<open>fsPromise\<close>,
  the first rejection ends the pass.
\<close>

definition debugDump ::
  "externals \<Rightarrow> host \<Rightarrow> cache \<Rightarrow> schemaDef \<Rightarrow> string \<Rightarrow> (js_exception + unit) \<times> fs_op list" where
  "debugDump ext h cache schemaDef targetPath =
     (if \<not> CL_DEBUG h then (Inr (), [])
      else
        let dir = Mkdir (withPrefix targetPath [''cache'']);
            w1 = WriteFile (withPrefix targetPath [''cache'', ''schema.json''])
                   (stringifySchemaDef ext schemaDef);
            w2 = WriteFile (withPrefix targetPath [''cache'', ''data-cache.json''])
                   (stringifyCache ext cache)
        in if fsPromise_mkdir h (withPrefix targetPath [''cache'']) \<noteq> None
             then (Inl (FsException dir), [dir])
           else if \<not> fsPromise_writeFile h (withPrefix targetPath [''cache'', ''schema.json''])
                     (stringifySchemaDef ext schemaDef)
             then (Inl (FsException w1), [dir, w1])
           else if \<not> fsPromise_writeFile h (withPrefix targetPath [''cache'', ''data-cache.json''])
                     (stringifyCache ext cache)
             then (Inl (FsException w2), [dir, w1, w2])
           else (Inr (), [dir, w1, w2]))"

text \<open>
  The identifiers handed to a type's barrel: the documents whose discriminant is strictly
  equal to the type's name, in the order of the snapshot.
\<close>

definition documentIdsOf :: "string \<Rightarrow> documentTypeDef \<Rightarrow> document list \<Rightarrow> string list" where
  "documentIdsOf typeNameField docDef allDocuments =
     map doc_id
       (filter (\<lambda>d. map_of (doc_props d) typeNameField = Some (JString (name docDef)))
          allDocuments)"

definition dataBarrelFile ::
  "externals \<Rightarrow> string \<Rightarrow> string \<Rightarrow> document list \<Rightarrow> documentTypeDef
     \<Rightarrow> js_exception + artifact" where
  "dataBarrelFile ext targetPath typeNameField allDocuments docDef =
     (case makeDataExportFile ext docDef (documentIdsOf typeNameField docDef allDocuments) of
        Inl e \<Rightarrow> Inl e
      | Inr c \<Rightarrow>
          Inr \<lparr>filePath =
                 withPrefix targetPath [''data'', getDataVariableName ext docDef @ ''.mjs''],
               content = c,
               documentHash = None\<rparr>)"

definition dataBarrelFiles ::
  "externals \<Rightarrow> string \<Rightarrow> string \<Rightarrow> documentTypeDef list \<Rightarrow> document list
     \<Rightarrow> js_exception + artifact list" where
  "dataBarrelFiles ext targetPath typeNameField documentDefs allDocuments =
     mapThrowing (dataBarrelFile ext targetPath typeNameField allDocuments) documentDefs"

text \<open>
  One data file for each cache item. \<^verbatim>\<open>path.join\<close> validates its arguments: a
  discriminant that is not a string throws a \<^verbatim>\<open>TypeError\<close>.
\<close>

definition dataJsonFile :: "string \<Rightarrow> string \<Rightarrow> cacheItem \<Rightarrow> js_exception + artifact" where
  "dataJsonFile targetPath typeNameField item =
     (case map_of (doc_props (document item)) typeNameField of
        Some (JString typeName) \<Rightarrow>
          Inr \<lparr>filePath =
                 withPrefix targetPath
                   [''data'', typeName, idToFileName (doc_id (document item)) @ ''.json''],
               content = JSON_stringify (JObject (doc_props (document item))) 2,
               documentHash = Some (item_documentHash item)\<rparr>
      | _ \<Rightarrow> Inl TypeError)"

definition dataJsonFiles :: "string \<Rightarrow> string \<Rightarrow> cacheItem list \<Rightarrow> js_exception + artifact list" where
  "dataJsonFiles targetPath typeNameField allCacheItems =
     mapThrowing (dataJsonFile targetPath typeNameField) allCacheItems"

definition staticFiles :: "externals \<Rightarrow> schemaDef \<Rightarrow> string \<Rightarrow> generationOptions \<Rightarrow> artifact list" where
  "staticFiles ext schemaDef targetPath generationOptions =
     [\<lparr>filePath = withPrefix targetPath [''package.json''],
       content = makePackageJson, documentHash = None\<rparr>,
      \<lparr>filePath = withPrefix targetPath [''types'', ''index.d.ts''],
       content = renderTypes ext schemaDef generationOptions, documentHash = None\<rparr>,
      \<lparr>filePath = withPrefix targetPath [''types'', ''index.mjs''],
       content = makeHelperTypes ext, documentHash = None\<rparr>,
      \<lparr>filePath = withPrefix targetPath [''data'', ''index.d.ts''],
       content = makeDataTypes ext schemaDef, documentHash = None\<rparr>,
      \<lparr>filePath = withPrefix targetPath [''data'', ''index.mjs''],
       content = makeIndexJs ext schemaDef, documentHash = None\<rparr>]"

text \<open>
  The files of a pass, in the order the write function is called on them. The barrels are
  computed first, so an exception there leaves the data files uncomputed.
\<close>

definition plannedFiles ::
  "externals \<Rightarrow> cache \<Rightarrow> schemaDef \<Rightarrow> string \<Rightarrow> generationOptions \<Rightarrow> js_exception + artifact list" where
  "plannedFiles ext cache schemaDef targetPath generationOptions =
     (let allCacheItems = map snd (cacheItemsMap cache);
          allDocuments = map document allCacheItems;
          documentDefs = map snd (documentTypeDefMap schemaDef);
          typeNameField = typeFieldName (fieldOptions (options generationOptions))
      in case dataBarrelFiles ext targetPath typeNameField documentDefs allDocuments of
           Inl e \<Rightarrow> Inl e
         | Inr barrels \<Rightarrow>
             (case dataJsonFiles targetPath typeNameField allCacheItems of
                Inl e \<Rightarrow> Inl e
              | Inr jsons \<Rightarrow>
                  Inr (staticFiles ext schemaDef targetPath generationOptions @ barrels @ jsons)))"

definition dataDirPaths :: "schemaDef \<Rightarrow> string \<Rightarrow> string list" where
  "dataDirPaths schemaDef targetPath =
     map (\<lambda>d. withPrefix targetPath [''data'', name d]) (map snd (documentTypeDefMap schemaDef))"

definition writeFilesForCache' ::
  "externals \<Rightarrow> host \<Rightarrow> cache \<Rightarrow> schemaDef \<Rightarrow> string \<Rightarrow> generationOptions \<Rightarrow> WrittenFilesCache
     \<Rightarrow> (js_exception + unit) \<times> WrittenFilesCache \<times> fs_op list" where
  "writeFilesForCache' ext h cache schemaDef targetPath generationOptions writtenFilesCache =
     (case debugDump ext h cache schemaDef targetPath of
        (Inl e, ops0) \<Rightarrow> (Inl e, writtenFilesCache, ops0)
      | (Inr _, ops0) \<Rightarrow>
          (case plannedFiles ext cache schemaDef targetPath generationOptions of
             Inl e \<Rightarrow> (Inl e, writtenFilesCache, ops0)
           | Inr files \<Rightarrow>
               (case Promise_all_mkdir h
                       (withPrefix targetPath [''types''] # dataDirPaths schemaDef targetPath) of
                  (Inl e, ops1) \<Rightarrow> (Inl e, writtenFilesCache, ops0 @ ops1)
                | (Inr _, ops1) \<Rightarrow>
                    (case Promise_all_writeFile h writtenFilesCache files of
                       (r, writtenFilesCache', ops2) \<Rightarrow>
                         (r, writtenFilesCache', ops0 @ ops1 @ ops2)))))"

text \<open>\<^verbatim>\<open>writeFilesForCache\<close> turns a rejection into an \<^verbatim>\<open>UnknownFSError\<close> on the left.\<close>

definition writeFilesForCache ::
  "externals \<Rightarrow> host \<Rightarrow> cache \<Rightarrow> schemaDef \<Rightarrow> string \<Rightarrow> generationOptions \<Rightarrow> WrittenFilesCache
     \<Rightarrow> (GenerateDotpkgError + unit) \<times> WrittenFilesCache \<times> fs_op list" where
  "writeFilesForCache ext h cache schemaDef targetPath generationOptions writtenFilesCache =
     (case writeFilesForCache' ext h cache schemaDef targetPath generationOptions writtenFilesCache of
        (Inl error, writtenFilesCache', ops) \<Rightarrow> (Inl (UnknownFSError error), writtenFilesCache', ops)
      | (Inr u, writtenFilesCache', ops) \<Rightarrow> (Inr u, writtenFilesCache', ops))"

section \<open>The stream of passes: \<^verbatim>\<open>generateDotpkgStream\<close>\<close>

text \<open>
  The source plugin, by what it yields: its type and options, the outcome of
  \<^verbatim>\<open>provideSchema\<close>, and the snapshots \<^verbatim>\<open>fetchData\<close> emits, each with the host its pass
  runs on.
\<close>

record sourcePlugin =
  source_type :: string
  source_options :: pluginOptions
  provideSchema :: "GenerateDotpkgError + schemaDef"
  fetchData :: "(host \<times> (GenerateDotpkgError + cache)) list"

text \<open>
  \<^verbatim>\<open>resolveParams\<close>: the schema and the output directory are obtained side by side, and
  either failure is the failure of the run (the schema's, where both fail).
\<close>

definition resolveParams ::
  "GenerateDotpkgError + schemaDef \<Rightarrow> GenerateDotpkgError + string
     \<Rightarrow> GenerateDotpkgError + (schemaDef \<times> string)" where
  "resolveParams schemaOutcome mkdirOutcome =
     (case schemaOutcome of
        Inl e \<Rightarrow> Inl e
      | Inr schemaDef \<Rightarrow>
          (case mkdirOutcome of Inl e \<Rightarrow> Inl e | Inr targetPath \<Rightarrow> Inr (schemaDef, targetPath)))"

text \<open>
  One pass for each snapshot, on the one cache of the run. A snapshot that could not be
  fetched is passed on as its failure; a pass that succeeds reports the number of keys of
  \<^verbatim>\<open>cacheItemsMap\<close>.
\<close>

fun mapSnapshots ::
  "externals \<Rightarrow> schemaDef \<Rightarrow> string \<Rightarrow> generationOptions \<Rightarrow> WrittenFilesCache
     \<Rightarrow> (host \<times> (GenerateDotpkgError + cache)) list
     \<Rightarrow> ((GenerateDotpkgError + GenerateInfo) \<times> fs_op list) list" where
  "mapSnapshots ext schemaDef targetPath generationOptions writtenFilesCache [] = []"
| "mapSnapshots ext schemaDef targetPath generationOptions writtenFilesCache ((h, fetched) # rest) =
     (case fetched of
        Inl e \<Rightarrow>
          (Inl e, []) # mapSnapshots ext schemaDef targetPath generationOptions writtenFilesCache rest
      | Inr cache \<Rightarrow>
          (case writeFilesForCache ext h cache schemaDef targetPath generationOptions
                  writtenFilesCache of
             (r, writtenFilesCache', ops) \<Rightarrow>
               ((case r of
                   Inl e \<Rightarrow> Inl e
                 | Inr _ \<Rightarrow> Inr \<lparr>documentCount = length (map fst (cacheItemsMap cache))\<rparr>),
                ops)
               # mapSnapshots ext schemaDef targetPath generationOptions writtenFilesCache' rest))"

definition generateDotpkgStream ::
  "externals \<Rightarrow> sourcePlugin \<Rightarrow> GenerateDotpkgError + string
     \<Rightarrow> ((GenerateDotpkgError + GenerateInfo) \<times> fs_op list) list" where
  "generateDotpkgStream ext source artifactsDirMkdir =
     (let writtenFilesCache = Map.empty;
          generationOptions =
            \<lparr>sourcePluginType = source_type source, options = source_options source\<rparr>
      in case resolveParams (provideSchema source) artifactsDirMkdir of
           Inl e \<Rightarrow> [(Inl e, [])]
         | Inr (schemaDef, targetPath) \<Rightarrow>
             mapSnapshots ext schemaDef targetPath generationOptions writtenFilesCache
               (fetchData source))"

section \<open>Notions the properties are stated with\<close>

text \<open>The writes a log holds for one path.\<close>

definition writesTo :: "FilePath \<Rightarrow> fs_op list \<Rightarrow> fs_op list" where
  "writesTo p ops = filter (\<lambda>op. case op of WriteFile q _ \<Rightarrow> q = p | Mkdir _ \<Rightarrow> False) ops"


text \<open>
  The file name rule in the words of the specification: an underscore in front of an
  identifier that begins with a digit, then two underscores for every slash.
\<close>

definition spec_fileName :: "string \<Rightarrow> string" where
  "spec_fileName ident =
     concat (map (\<lambda>c. if c = CHR ''/'' then ''__'' else [c])
       (if ident \<noteq> [] \<and> hd ident \<in> set ''0123456789'' then CHR ''_'' # ident else ident))"

section \<open>Sample inputs\<close>

text \<open>
  The imported functions at the values they take on the names used below: lower-case
  identifiers of letters, digits and underscores are one camel-case word and come back
  unchanged; \<^verbatim>\<open>Post\<close> has the plural \<^verbatim>\<open>Posts\<close>, and \<^verbatim>\<open>Config\<close> is its own singular.
\<close>

definition sampleExternals :: externals where
  "sampleExternals =
     \<lparr>autogeneratedNote = ''NOTE This file is auto-generated by Contentlayer'',
      renderTypes = (\<lambda>_ _. ''// types''),
      camelCase = (\<lambda>s. s),
      singularize = (\<lambda>s. s),
      pluralize = (\<lambda>s. s @ ''s''),
      lowercaseFirstChar = (\<lambda>s. case s of [] \<Rightarrow> [] | c # cs \<Rightarrow> (if c = CHR ''C'' then CHR ''c'' else c) # cs),
      uppercaseFirstChar = (\<lambda>s. s),
      stringifySchemaDef = (\<lambda>_. ''{}''),
      stringifyCache = (\<lambda>_. ''{}'')\<rparr>"

text \<open>A host on which every operation succeeds, and one that rejects the writes to one path.\<close>

definition sampleHost :: host where
  "sampleHost =
     \<lparr>CL_DEBUG = False, fsPromise_mkdir = (\<lambda>_. None), fsPromise_writeFile = (\<lambda>_ _. True)\<rparr>"

definition rejectingHost :: "FilePath \<Rightarrow> host" where
  "rejectingHost p =
     \<lparr>CL_DEBUG = False, fsPromise_mkdir = (\<lambda>_. None), fsPromise_writeFile = (\<lambda>q _. q \<noteq> p)\<rparr>"

definition sampleOptions :: generationOptions where
  "sampleOptions =
     \<lparr>sourcePluginType = ''local'', options = \<lparr>fieldOptions = \<lparr>typeFieldName = ''type''\<rparr>\<rparr>\<rparr>"

definition postDef :: documentTypeDef where
  "postDef = \<lparr>name = ''Post'', isSingleton = False\<rparr>"

definition configDef :: documentTypeDef where
  "configDef = \<lparr>name = ''Config'', isSingleton = True\<rparr>"

definition postSchema :: schemaDef where
  "postSchema = \<lparr>documentTypeDefMap = [(''Post'', postDef)]\<rparr>"

definition configSchema :: schemaDef where
  "configSchema = \<lparr>documentTypeDefMap = [(''Config'', configDef)]\<rparr>"

definition sampleItem :: "string \<Rightarrow> string \<Rightarrow> DocumentHash \<Rightarrow> string \<times> cacheItem" where
  "sampleItem ident typeName hash =
     (ident,
      \<lparr>document = \<lparr>doc_id = ident,
                    doc_props = [(''_id'', JString ident), (''type'', JString typeName)]\<rparr>,
       item_documentHash = hash\<rparr>)"

text \<open>
  Snapshots over the collection type \<^verbatim>\<open>Post\<close>: one document \<^verbatim>\<open>a\<close> with a given hash;
  the documents \<^verbatim>\<open>a\<close> and \<^verbatim>\<open>2024/b\<close>; the documents \<^verbatim>\<open>a\<close> and \<^verbatim>\<open>b\<close> enumerated in
  both orders; two documents whose identifiers give one file name; and a document of the
  type \<^verbatim>\<open>Post\<close> beside one whose type \<^verbatim>\<open>Note\<close> no schema below defines.
\<close>

definition singlePost :: "DocumentHash \<Rightarrow> cache" where
  "singlePost hash = \<lparr>cacheItemsMap = [sampleItem ''a'' ''Post'' hash]\<rparr>"

definition scenarioSnapshot :: cache where
  "scenarioSnapshot =
     \<lparr>cacheItemsMap = [sampleItem ''a'' ''Post'' ''h1'', sampleItem ''2024/b'' ''Post'' ''h2'']\<rparr>"

definition sortedSnapshot :: cache where
  "sortedSnapshot =
     \<lparr>cacheItemsMap = [sampleItem ''a'' ''Post'' ''h1'', sampleItem ''b'' ''Post'' ''h2'']\<rparr>"

definition unsortedSnapshot :: cache where
  "unsortedSnapshot =
     \<lparr>cacheItemsMap = [sampleItem ''b'' ''Post'' ''h2'', sampleItem ''a'' ''Post'' ''h1'']\<rparr>"

definition collidingSnapshot :: cache where
  "collidingSnapshot =
     \<lparr>cacheItemsMap = [sampleItem ''a/b'' ''Post'' ''h1'', sampleItem ''a__b'' ''Post'' ''h2'']\<rparr>"

definition unmatchedSnapshot :: cache where
  "unmatchedSnapshot =
     \<lparr>cacheItemsMap = [sampleItem ''a'' ''Post'' ''h1'', sampleItem ''x'' ''Note'' ''h3'']\<rparr>"

text \<open>The data file planned for the document \<^verbatim>\<open>a\<close> of type \<^verbatim>\<open>Post\<close> under \<^verbatim>\<open>out\<close>.\<close>

definition postFileA :: "DocumentHash \<Rightarrow> artifact" where
  "postFileA hash =
     \<lparr>filePath = ''out/data/Post/a.json'',
      content = JSON_stringify (JObject [(''_id'', JString ''a''), (''type'', JString ''Post'')]) 2,
      documentHash = Some hash\<rparr>"

text \<open>
  The files planned for a snapshot over the schema of \<^verbatim>\<open>Post\<close>, and two passes in a row
  from the empty cache: the outcome of the first, and the outcome and the log of the second.
\<close>

definition planOf :: "cache \<Rightarrow> artifact list" where
  "planOf c =
     (case plannedFiles sampleExternals c postSchema ''out'' sampleOptions of
        Inl _ \<Rightarrow> []
      | Inr files \<Rightarrow> files)"

definition firstPass ::
  "host \<Rightarrow> cache \<Rightarrow> (GenerateDotpkgError + unit) \<times> WrittenFilesCache \<times> fs_op list" where
  "firstPass h c = writeFilesForCache sampleExternals h c postSchema ''out'' sampleOptions Map.empty"

definition secondPass ::
  "host \<Rightarrow> cache \<Rightarrow> host \<Rightarrow> cache
     \<Rightarrow> (GenerateDotpkgError + unit) \<times> WrittenFilesCache \<times> fs_op list" where
  "secondPass h1 c1 h2 c2 =
     writeFilesForCache sampleExternals h2 c2 postSchema ''out'' sampleOptions
       (fst (snd (firstPass h1 c1)))"

definition sampleSource :: sourcePlugin where
  "sampleSource =
     \<lparr>source_type = ''local'',
      source_options = \<lparr>fieldOptions = \<lparr>typeFieldName = ''type''\<rparr>\<rparr>,
      provideSchema = Inr postSchema,
      fetchData = [(sampleHost, Inr scenarioSnapshot)]\<rparr>"

text \<open>
  A host that rejects every write of one content, and a third pass after two: for a
  write that fails beside one that succeeds, and for a document that goes back to an
  earlier hash.
\<close>

definition contentRejectingHost :: "string \<Rightarrow> host" where
  "contentRejectingHost c =
     \<lparr>CL_DEBUG = False, fsPromise_mkdir = (\<lambda>_. None), fsPromise_writeFile = (\<lambda>_ d. d \<noteq> c)\<rparr>"

definition thirdPass ::
  "host \<Rightarrow> cache \<Rightarrow> host \<Rightarrow> cache \<Rightarrow> host \<Rightarrow> cache
     \<Rightarrow> (GenerateDotpkgError + unit) \<times> WrittenFilesCache \<times> fs_op list" where
  "thirdPass h1 c1 h2 c2 h3 c3 =
     writeFilesForCache sampleExternals h3 c3 postSchema ''out'' sampleOptions
       (fst (snd (secondPass h1 c1 h2 c2)))"

section \<open>File names\<close>

lemma replaceSlashes_concat:
  "replaceSlashes s = concat (map (\<lambda>c. if c = CHR ''/'' then ''__'' else [c]) s)"
  by (induction s) simp_all

lemma startsWithNumber_hd:
  "startsWithNumber s \<longleftrightarrow> s \<noteq> [] \<and> hd s \<in> set ''0123456789''"
  by (cases s) (simp_all add: startsWithNumber_def isDigit_def)

text \<open>
  C7. The data file name of a document identifier is the identifier with the two rules of
  the specification applied in order: an underscore is prefixed if the identifier begins
  with a digit, then every slash of the result becomes a double underscore. The identifier
  \<^verbatim>\<open>2024/b\<close> gives \<^verbatim>\<open>_2024__b\<close>, and \<^verbatim>\<open>a\<close> stays \<^verbatim>\<open>a\<close>.
\<close>

theorem idToFileName_two_rules:
  "idToFileName ident = spec_fileName ident
     \<and> idToFileName ''2024/b'' = ''_2024__b''
     \<and> idToFileName ''a'' = ''a''"
proof -
  have "idToFileName ident = spec_fileName ident"
    unfolding idToFileName_def spec_fileName_def leftPadWithUnderscoreIfStartsWithNumber_def
      replaceSlashes_concat startsWithNumber_hd by simp
  moreover have "idToFileName ''2024/b'' = ''_2024__b''"
    by (simp add: idToFileName_def leftPadWithUnderscoreIfStartsWithNumber_def
        startsWithNumber_def isDigit_def)
  moreover have "idToFileName ''a'' = ''a''"
    by (simp add: idToFileName_def leftPadWithUnderscoreIfStartsWithNumber_def
        startsWithNumber_def isDigit_def)
  ultimately show ?thesis by simp
qed

lemma replaceSlashes_inj:
  "CHR ''_'' \<notin> set a \<Longrightarrow> CHR ''_'' \<notin> set b \<Longrightarrow> replaceSlashes a = replaceSlashes b \<Longrightarrow> a = b"
proof (induction a arbitrary: b)
  case Nil
  then show ?case by (cases b) (auto split: if_splits)
next
  case (Cons c cs)
  then show ?case by (cases b) (auto split: if_splits)
qed

lemma replaceSlashes_hd:
  "CHR ''_'' \<notin> set b \<Longrightarrow> replaceSlashes b = CHR ''_'' # r \<Longrightarrow>
     \<exists>bs. b = CHR ''/'' # bs \<and> r = CHR ''_'' # replaceSlashes bs"
  by (cases b) (auto split: if_splits)

lemma idToFileName_inj:
  assumes a: "CHR ''_'' \<notin> set a" and b: "CHR ''_'' \<notin> set b"
    and eq: "idToFileName a = idToFileName b"
  shows "a = b"
proof -
  have pad: "False" if x: "CHR ''_'' \<notin> set x" and y: "CHR ''_'' \<notin> set y"
    and sx: "startsWithNumber x" and e: "CHR ''_'' # replaceSlashes x = replaceSlashes y" for x y
  proof -
    from replaceSlashes_hd[OF y e[symmetric]] obtain bs where
      "replaceSlashes x = CHR ''_'' # replaceSlashes bs" by blast
    with sx x show False
      by (cases x) (auto simp: startsWithNumber_def isDigit_def split: if_splits)
  qed
  show ?thesis
  proof (cases "startsWithNumber a")
    case True
    show ?thesis
    proof (cases "startsWithNumber b")
      case True
      with \<open>startsWithNumber a\<close> eq a b show ?thesis
        by (auto simp: idToFileName_def leftPadWithUnderscoreIfStartsWithNumber_def
            dest: replaceSlashes_inj)
    next
      case False
      with True eq have "CHR ''_'' # replaceSlashes a = replaceSlashes b"
        by (simp add: idToFileName_def leftPadWithUnderscoreIfStartsWithNumber_def)
      from pad[OF a b True this] show ?thesis ..
    qed
  next
    case False
    show ?thesis
    proof (cases "startsWithNumber b")
      case True
      with False eq have "CHR ''_'' # replaceSlashes b = replaceSlashes a"
        by (simp add: idToFileName_def leftPadWithUnderscoreIfStartsWithNumber_def)
      from pad[OF b a True this] show ?thesis ..
    next
      case nb: False
      with False eq a b show ?thesis
        by (auto simp: idToFileName_def leftPadWithUnderscoreIfStartsWithNumber_def
            dest: replaceSlashes_inj)
    qed
  qed
qed

text \<open>
  C3 (amended). The file name function is injective on identifiers that hold no
  underscore: the distinct underscore-free identifiers of a snapshot get distinct file
  names.
\<close>

theorem idToFileName_distinct_without_underscore:
  assumes "\<forall>i\<in>set ids. CHR ''_'' \<notin> set i" and "distinct ids"
  shows "distinct (map idToFileName ids)"
proof -
  have "inj_on idToFileName (set ids)"
    using assms(1) by (auto intro!: inj_onI dest: idToFileName_inj)
  with assms(2) show ?thesis by (simp add: distinct_map)
qed

text \<open>Three such identifiers, one of them with a leading digit and a slash.\<close>

theorem idToFileName_distinct_without_underscore_witness:
  "CHR ''_'' \<notin> set ''a'' \<and> CHR ''_'' \<notin> set ''2024/b'' \<and> CHR ''_'' \<notin> set ''2024b''
   \<and> distinct [''a'', ''2024/b'', ''2024b'']
   \<and> distinct (map idToFileName [''a'', ''2024/b'', ''2024b''])"
proof -
  have u: "\<forall>i\<in>set [''a'', ''2024/b'', ''2024b'']. CHR ''_'' \<notin> set i" by simp
  have d: "distinct [''a'', ''2024/b'', ''2024b'']" by simp
  from idToFileName_distinct_without_underscore[OF u d] show ?thesis by simp
qed

text \<open>
  Against C3 as stated: the identifiers \<^verbatim>\<open>a/b\<close> and \<^verbatim>\<open>a__b\<close> differ and have the file
  name \<^verbatim>\<open>a__b\<close> both. A pass over a snapshot that holds the two succeeds, plans two data
  files for the one path and writes the path twice: nothing flags the pair.
\<close>

theorem idToFileName_collision_counterexample:
  "''a/b'' \<noteq> ''a__b''
   \<and> idToFileName ''a/b'' = ''a__b'' \<and> idToFileName ''a__b'' = ''a__b''
   \<and> firstPass sampleHost collidingSnapshot
       = (Inr (), fst (snd (firstPass sampleHost collidingSnapshot)),
          snd (snd (firstPass sampleHost collidingSnapshot)))
   \<and> map filePath (drop 6 (planOf collidingSnapshot))
       = [''out/data/Post/a__b.json'', ''out/data/Post/a__b.json'']
   \<and> writesTo ''out/data/Post/a__b.json'' (snd (snd (firstPass sampleHost collidingSnapshot)))
       = [WriteFile ''out/data/Post/a__b.json''
            (JSON_stringify (JObject [(''_id'', JString ''a/b''), (''type'', JString ''Post'')]) 2),
          WriteFile ''out/data/Post/a__b.json''
            (JSON_stringify (JObject [(''_id'', JString ''a__b''), (''type'', JString ''Post'')]) 2)]"
proof -
  have "fst (firstPass sampleHost collidingSnapshot) = Inr ()" by code_simp
  then have 1: "firstPass sampleHost collidingSnapshot
       = (Inr (), fst (snd (firstPass sampleHost collidingSnapshot)),
          snd (snd (firstPass sampleHost collidingSnapshot)))"
    by (cases "firstPass sampleHost collidingSnapshot") simp
  have 2: "''a/b'' \<noteq> ''a__b''
   \<and> idToFileName ''a/b'' = ''a__b'' \<and> idToFileName ''a__b'' = ''a__b''
   \<and> map filePath (drop 6 (planOf collidingSnapshot))
       = [''out/data/Post/a__b.json'', ''out/data/Post/a__b.json'']
   \<and> writesTo ''out/data/Post/a__b.json'' (snd (snd (firstPass sampleHost collidingSnapshot)))
       = [WriteFile ''out/data/Post/a__b.json''
            (JSON_stringify (JObject [(''_id'', JString ''a/b''), (''type'', JString ''Post'')]) 2),
          WriteFile ''out/data/Post/a__b.json''
            (JSON_stringify (JObject [(''_id'', JString ''a__b''), (''type'', JString ''Post'')]) 2)]"
    by code_simp
  from 1 2 show ?thesis by blast
qed

section \<open>The write function and the cache\<close>

lemma foldl_record_other:
  "(\<forall>x\<in>set xs. filePath x \<noteq> p) \<Longrightarrow> foldl recordWrittenFile wfc xs p = wfc p"
  by (induction xs arbitrary: wfc) (auto simp: recordWrittenFile_def split: option.splits)

lemma unique_path_split:
  "filter (\<lambda>b. filePath b = p) files = [a] \<Longrightarrow>
     \<exists>ys zs. files = ys @ a # zs \<and> (\<forall>y\<in>set ys. filePath y \<noteq> p)
           \<and> (\<forall>z\<in>set zs. filePath z \<noteq> p) \<and> filePath a = p"
proof (induction files)
  case Nil
  then show ?case by simp
next
  case (Cons x xs)
  show ?case
  proof (cases "filePath x = p")
    case True
    with Cons.prems have "x = a" and "filter (\<lambda>b. filePath b = p) xs = []"
      by simp_all
    then have "x # xs = [] @ a # xs" and "\<forall>z\<in>set xs. filePath z \<noteq> p"
      by (simp_all add: filter_empty_conv)
    with True \<open>x = a\<close> show ?thesis by (metis empty_iff list.set(1))
  next
    case False
    with Cons.prems have "filter (\<lambda>b. filePath b = p) xs = [a]" by simp
    from Cons.IH[OF this] obtain ys zs where
      "xs = ys @ a # zs" "\<forall>y\<in>set ys. filePath y \<noteq> p" "\<forall>z\<in>set zs. filePath z \<noteq> p"
      "filePath a = p" by blast
    then have "x # xs = (x # ys) @ a # zs" "\<forall>y\<in>set (x # ys). filePath y \<noteq> p"
      using False by simp_all
    with \<open>\<forall>z\<in>set zs. filePath z \<noteq> p\<close> \<open>filePath a = p\<close> show ?thesis by blast
  qed
qed

lemma writesTo_map_other:
  "(\<forall>x\<in>set xs. filePath x \<noteq> p) \<Longrightarrow> writesTo p (map writeOp xs) = []"
  by (induction xs) (auto simp: writesTo_def writeOp_def)

text \<open>
  Where a pass plans one file only for a path, the joint run of the calls does at that
  path what the single call does: the same cache entry, the same writes.
\<close>

lemma Promise_all_unique_path:
  assumes "filter (\<lambda>b. filePath b = p) files = [a]"
  shows "fst (snd (Promise_all_writeFile h wfc files)) p
           = fst (snd (writeFileWithWrittenFilesCache h wfc a)) p"
    and "writesTo p (snd (snd (Promise_all_writeFile h wfc files)))
           = snd (snd (writeFileWithWrittenFilesCache h wfc a))"
proof -
  from unique_path_split[OF assms] obtain ys zs where
    s: "files = ys @ a # zs" and ys: "\<forall>y\<in>set ys. filePath y \<noteq> p"
    and zs: "\<forall>z\<in>set zs. filePath z \<noteq> p" and a: "filePath a = p"
    by blast
  let ?P = "\<lambda>b. \<not> fileIsUpToDate wfc b"
  let ?R = "writeResolves h"
  have other: "\<And>xs c. (\<forall>x\<in>set xs. filePath x \<noteq> p)
      \<Longrightarrow> foldl recordWrittenFile c (filter ?R (filter ?P xs)) p = c p"
    by (rule foldl_record_other) simp
  have "foldl recordWrittenFile wfc (filter ?R (filter ?P files)) p
      = foldl recordWrittenFile wfc (filter ?R (filter ?P ys) @ filter ?R (filter ?P [a])) p"
    unfolding s using other[OF zs] by simp
  also have "\<dots> = foldl recordWrittenFile wfc (filter ?R (filter ?P [a])) p"
  proof -
    have r: "recordWrittenFile c a p = recordWrittenFile wfc a p"
      if "c p = wfc p" for c
      using a that by (simp add: recordWrittenFile_def split: option.splits)
    have o: "foldl recordWrittenFile wfc (filter ?R (filter ?P ys)) p = wfc p"
      by (rule other[OF ys])
    show ?thesis
    proof (cases "?P a \<and> ?R a")
      case True
      then show ?thesis using r[of "foldl recordWrittenFile wfc (filter ?R (filter ?P ys))", OF o] by simp
    next
      case False
      then show ?thesis using o by auto
    qed
  qed
  finally show "fst (snd (Promise_all_writeFile h wfc files)) p
           = fst (snd (writeFileWithWrittenFilesCache h wfc a)) p"
    by (simp add: Promise_all_writeFile_def writeFileWithWrittenFilesCache_def Let_def)
  have "writesTo p (map writeOp (filter ?P files)) = writesTo p (map writeOp (filter ?P [a]))"
  proof -
    have 1: "writesTo p (map writeOp (filter ?P ys)) = []"
      by (rule writesTo_map_other) (use ys in simp)
    have 2: "writesTo p (map writeOp (filter ?P zs)) = []"
      by (rule writesTo_map_other) (use zs in simp)
    have app: "\<And>xs ys. writesTo p (xs @ ys) = writesTo p xs @ writesTo p ys"
      by (simp add: writesTo_def)
    have "filter ?P (ys @ a # zs) = filter ?P ys @ filter ?P [a] @ filter ?P zs"
      by simp
    then show ?thesis unfolding s using 1 2 by (simp only: map_append app append_Nil append_Nil2)
  qed
  moreover have "writesTo p (map writeOp (filter ?P [a]))
      = snd (snd (writeFileWithWrittenFilesCache h wfc a))"
    using a by (simp add: writeFileWithWrittenFilesCache_def writesTo_def writeOp_def)
  moreover have "snd (snd (Promise_all_writeFile h wfc files)) = map writeOp (filter ?P files)"
    by (simp add: Promise_all_writeFile_def Let_def)
  ultimately show "writesTo p (snd (snd (Promise_all_writeFile h wfc files)))
           = snd (snd (writeFileWithWrittenFilesCache h wfc a))"
    by (simp only:)
qed


lemma call_with_hash:
  "documentHash a = Some x \<Longrightarrow>
     writeFileWithWrittenFilesCache h wfc a
       = (if wfc (filePath a) = Some x then (Inr (), wfc, [])
          else if writeResolves h a
            then (Inr (), (if x \<noteq> [] then wfc(filePath a \<mapsto> x) else wfc), [writeOp a])
          else (Inl (FsException (writeOp a)), wfc, [writeOp a]))"
  by (simp add: writeFileWithWrittenFilesCache_def fileIsUpToDate_def recordWrittenFile_def)





text \<open>The plan of the snapshot with the one document \<^verbatim>\<open>a\<close> holds one file for its path.\<close>

lemma only_postFileA:
  "filter (\<lambda>b. filePath b = ''out/data/Post/a.json'') (planOf (singlePost ''h1'')) = [postFileA ''h1'']"
  "filter (\<lambda>b. filePath b = ''out/data/Post/a.json'') (planOf (singlePost ''h2'')) = [postFileA ''h2'']"
  by code_simp+

text \<open>
  C1 (amended). A call of the write function with a supplied hash issues no file system
  operation if the cache holds that hash for the exact path of the file, and exactly one
  write otherwise. Over two passes in a row: if each pass plans one file for a path, the
  first with a non-empty hash, and the first pass either skipped that file as up to date
  or saw its write resolve, then the second pass does not write to the path if its hash is
  the same, and writes to it exactly once if its hash differs.
\<close>

theorem unchanged_fingerprint_skips_second_write:
  assumes unique1: "filter (\<lambda>b. filePath b = p) files1 = [a1]"
    and hash1: "documentHash a1 = Some x1" and truthy: "x1 \<noteq> []"
    and done1: "fileIsUpToDate wfc0 a1 \<or> writeResolves h1 a1"
    and unique2: "filter (\<lambda>b. filePath b = p) files2 = [a2]"
    and hash2: "documentHash a2 = Some x2"
  shows "snd (snd (writeFileWithWrittenFilesCache h wfc a2))
           = (if wfc (filePath a2) = Some x2 then [] else [writeOp a2])
         \<and> writesTo p (snd (snd (Promise_all_writeFile h2
               (fst (snd (Promise_all_writeFile h1 wfc0 files1))) files2)))
           = (if x2 = x1 then [] else [writeOp a2])"
proof -
  let ?wfc1 = "fst (snd (Promise_all_writeFile h1 wfc0 files1))"
  have p1: "filePath a1 = p" and p2: "filePath a2 = p"
    using unique_path_split[OF unique1] unique_path_split[OF unique2] by auto
  have "?wfc1 p = fst (snd (writeFileWithWrittenFilesCache h1 wfc0 a1)) p"
    by (rule Promise_all_unique_path(1)[OF unique1])
  also have "\<dots> = Some x1"
    using done1 hash1 truthy p1
    by (auto simp: call_with_hash fileIsUpToDate_def)
  finally have c: "?wfc1 p = Some x1" .
  have "writesTo p (snd (snd (Promise_all_writeFile h2 ?wfc1 files2)))
          = snd (snd (writeFileWithWrittenFilesCache h2 ?wfc1 a2))"
    by (rule Promise_all_unique_path(2)[OF unique2])
  also have "\<dots> = (if x2 = x1 then [] else [writeOp a2])"
    using c p2 by (auto simp: call_with_hash[OF hash2])
  finally have two: "writesTo p (snd (snd (Promise_all_writeFile h2 ?wfc1 files2)))
          = (if x2 = x1 then [] else [writeOp a2])" .
  have one: "snd (snd (writeFileWithWrittenFilesCache h wfc a2))
           = (if wfc (filePath a2) = Some x2 then [] else [writeOp a2])"
    by (simp add: call_with_hash[OF hash2])
  from one two show ?thesis by simp
qed

text \<open>
  Two passes over the document \<^verbatim>\<open>a\<close> from the empty cache: no write of its data file in
  the second pass with the hash unchanged, one with the hash changed.
\<close>

theorem unchanged_fingerprint_skips_second_write_witness:
  "filter (\<lambda>b. filePath b = ''out/data/Post/a.json'') (planOf (singlePost ''h1'')) = [postFileA ''h1'']
   \<and> writeResolves sampleHost (postFileA ''h1'')
   \<and> writesTo ''out/data/Post/a.json''
         (snd (snd (Promise_all_writeFile sampleHost
            (fst (snd (Promise_all_writeFile sampleHost Map.empty (planOf (singlePost ''h1'')))))
            (planOf (singlePost ''h1''))))) = []
   \<and> writesTo ''out/data/Post/a.json''
         (snd (snd (Promise_all_writeFile sampleHost
            (fst (snd (Promise_all_writeFile sampleHost Map.empty (planOf (singlePost ''h1'')))))
            (planOf (singlePost ''h2''))))) = [writeOp (postFileA ''h2'')]"
proof -
  have r: "writeResolves sampleHost (postFileA ''h1'')"
    by (simp add: writeResolves_def sampleHost_def)
  have d: "fileIsUpToDate Map.empty (postFileA ''h1'') \<or> writeResolves sampleHost (postFileA ''h1'')"
    using r by simp
  have h1: "documentHash (postFileA ''h1'') = Some ''h1''"
    and h2: "documentHash (postFileA ''h2'') = Some ''h2''"
    by (simp_all add: postFileA_def)
  have t: "''h1'' \<noteq> []" by simp
  from unchanged_fingerprint_skips_second_write[OF only_postFileA(1) h1 t d only_postFileA(1) h1,
      of sampleHost Map.empty sampleHost]
    unchanged_fingerprint_skips_second_write[OF only_postFileA(1) h1 t d only_postFileA(2) h2,
      of sampleHost Map.empty sampleHost]
  show ?thesis using r only_postFileA(1) by simp
qed

text \<open>
  Against C1 as stated, for every supplied hash and any two passes in a row. With the
  empty string as hash both passes succeed and the second writes the data file again.
  Where the write of the first pass is rejected, the second pass writes the file although
  its hash is unchanged. And of two documents that share a data file, the second pass
  writes one again, the one whose hash the first pass did not leave in the cache.
\<close>

theorem unchanged_fingerprint_rewritten_counterexample:
  "fst (firstPass sampleHost (singlePost [])) = Inr ()
   \<and> fst (secondPass sampleHost (singlePost []) sampleHost (singlePost [])) = Inr ()
   \<and> writesTo ''out/data/Post/a.json''
        (snd (snd (secondPass sampleHost (singlePost []) sampleHost (singlePost []))))
      = [writeOp (postFileA [])]
   \<and> fst (firstPass (rejectingHost ''out/data/Post/a.json'') (singlePost ''h1''))
      = Inl (UnknownFSError (FsException (writeOp (postFileA ''h1''))))
   \<and> writesTo ''out/data/Post/a.json''
        (snd (snd (secondPass (rejectingHost ''out/data/Post/a.json'') (singlePost ''h1'')
                     sampleHost (singlePost ''h1''))))
      = [writeOp (postFileA ''h1'')]
   \<and> fst (firstPass sampleHost collidingSnapshot) = Inr ()
   \<and> length (writesTo ''out/data/Post/a__b.json''
        (snd (snd (secondPass sampleHost collidingSnapshot sampleHost collidingSnapshot)))) = 1"
  by code_simp

text \<open>
  C6 (amended). A write with a supplied hash that is not skipped. If the write resolves,
  the call returns with the cache changed by the recording step only, and for a non-empty
  hash the entry of the path is then that hash, after the call and after a pass that plans
  no other file for the path. If the write rejects, the call fails and leaves the cache as
  it was; in a pass that plans no other file for the path, the pass fails, the entry of
  the path is what it was before the pass, and the next pass that plans one file for the
  path writes it, unless the hash it comes with is the entry that was left (so it writes
  the file whose write failed, when that comes again).
\<close>

theorem failed_write_leaves_cache_entry:
  assumes hash: "documentHash a = Some x"
    and stale: "\<not> fileIsUpToDate wfc a"
    and unique: "filter (\<lambda>b. filePath b = filePath a) files = [a]"
    and again: "filter (\<lambda>b. filePath b = filePath a) files' = [a']"
    and hash': "documentHash a' = Some x'"
  shows "(writeResolves h a \<longrightarrow>
            writeFileWithWrittenFilesCache h wfc a
              = (Inr (), recordWrittenFile wfc a, [writeOp a])
            \<and> (x \<noteq> [] \<longrightarrow>
                  writeFileWithWrittenFilesCache h wfc a
                    = (Inr (), wfc(filePath a \<mapsto> x), [writeOp a])
                  \<and> fst (snd (Promise_all_writeFile h wfc files)) (filePath a) = Some x))
         \<and> (\<not> writeResolves h a \<longrightarrow>
            writeFileWithWrittenFilesCache h wfc a
              = (Inl (FsException (writeOp a)), wfc, [writeOp a])
            \<and> fst (Promise_all_writeFile h wfc files) \<noteq> Inr ()
            \<and> fst (snd (Promise_all_writeFile h wfc files)) (filePath a) = wfc (filePath a)
            \<and> writesTo (filePath a)
                 (snd (snd (Promise_all_writeFile h'
                    (fst (snd (Promise_all_writeFile h wfc files))) files')))
               = (if wfc (filePath a) = Some x' then [] else [writeOp a'])
            \<and> writesTo (filePath a)
                 (snd (snd (Promise_all_writeFile h'
                    (fst (snd (Promise_all_writeFile h wfc files))) files)))
               = [writeOp a])"
proof -
  let ?wfc1 = "fst (snd (Promise_all_writeFile h wfc files))"
  have n: "wfc (filePath a) \<noteq> Some x"
    using stale hash by (simp add: fileIsUpToDate_def)
  have ok: "writeFileWithWrittenFilesCache h wfc a
              = (Inr (), recordWrittenFile wfc a, [writeOp a])
            \<and> (x \<noteq> [] \<longrightarrow>
                  writeFileWithWrittenFilesCache h wfc a
                    = (Inr (), wfc(filePath a \<mapsto> x), [writeOp a])
                  \<and> ?wfc1 (filePath a) = Some x)" if res: "writeResolves h a"
  proof -
    have 1: "writeFileWithWrittenFilesCache h wfc a
              = (Inr (), recordWrittenFile wfc a, [writeOp a])"
      using stale res by (simp add: writeFileWithWrittenFilesCache_def)
    have 2: "writeFileWithWrittenFilesCache h wfc a
                    = (Inr (), wfc(filePath a \<mapsto> x), [writeOp a])
             \<and> ?wfc1 (filePath a) = Some x" if t: "x \<noteq> []"
    proof -
      have c: "writeFileWithWrittenFilesCache h wfc a
                    = (Inr (), wfc(filePath a \<mapsto> x), [writeOp a])"
        using n res t by (simp add: call_with_hash[OF hash])
      have "?wfc1 (filePath a) = fst (snd (writeFileWithWrittenFilesCache h wfc a)) (filePath a)"
        by (rule Promise_all_unique_path(1)[OF unique])
      with c show ?thesis by simp
    qed
    from 1 2 show ?thesis by blast
  qed
  have bad: "writeFileWithWrittenFilesCache h wfc a
              = (Inl (FsException (writeOp a)), wfc, [writeOp a])
            \<and> fst (Promise_all_writeFile h wfc files) \<noteq> Inr ()
            \<and> ?wfc1 (filePath a) = wfc (filePath a)
            \<and> writesTo (filePath a) (snd (snd (Promise_all_writeFile h' ?wfc1 files')))
               = (if wfc (filePath a) = Some x' then [] else [writeOp a'])
            \<and> writesTo (filePath a) (snd (snd (Promise_all_writeFile h' ?wfc1 files)))
               = [writeOp a]" if rej: "\<not> writeResolves h a"
  proof -
    have 1: "writeFileWithWrittenFilesCache h wfc a
              = (Inl (FsException (writeOp a)), wfc, [writeOp a])"
      using stale rej by (simp add: writeFileWithWrittenFilesCache_def)
    have "a \<in> set files"
      using unique_path_split[OF unique] by auto
    then have "a \<in> set (filter (\<lambda>a. \<not> writeResolves h a)
                      (filter (\<lambda>a. \<not> fileIsUpToDate wfc a) files))"
      using stale rej by simp
    then have "filter (\<lambda>a. \<not> writeResolves h a)
                      (filter (\<lambda>a. \<not> fileIsUpToDate wfc a) files) \<noteq> []"
      by (metis empty_iff list.set(1))
    then have 2: "fst (Promise_all_writeFile h wfc files) \<noteq> Inr ()"
      by (simp add: Promise_all_writeFile_def Let_def split: list.splits)
    have 3: "?wfc1 (filePath a) = wfc (filePath a)"
      using Promise_all_unique_path(1)[OF unique, of h wfc] 1 by simp
    have p': "filePath a' = filePath a"
      using unique_path_split[OF again] by auto
    have "writesTo (filePath a) (snd (snd (Promise_all_writeFile h' ?wfc1 files')))
            = snd (snd (writeFileWithWrittenFilesCache h' ?wfc1 a'))"
      by (rule Promise_all_unique_path(2)[OF again])
    also have "\<dots> = (if wfc (filePath a) = Some x' then [] else [writeOp a'])"
      using 3 p' by (auto simp: call_with_hash[OF hash'])
    finally have 4: "writesTo (filePath a) (snd (snd (Promise_all_writeFile h' ?wfc1 files')))
            = (if wfc (filePath a) = Some x' then [] else [writeOp a'])" .
    have "writesTo (filePath a) (snd (snd (Promise_all_writeFile h' ?wfc1 files)))
            = snd (snd (writeFileWithWrittenFilesCache h' ?wfc1 a))"
      by (rule Promise_all_unique_path(2)[OF unique])
    also have "\<dots> = [writeOp a]"
      using 3 n by (auto simp: call_with_hash[OF hash])
    finally have 5: "writesTo (filePath a) (snd (snd (Promise_all_writeFile h' ?wfc1 files)))
            = [writeOp a]" .
    from 1 2 3 4 5 show ?thesis by simp
  qed
  from ok bad show ?thesis by blast
qed

text \<open>
  The data file of the document \<^verbatim>\<open>a\<close> with the hash \<^verbatim>\<open>h1\<close>, from the empty cache. On a
  host where its write resolves the hash is recorded under its path. On a host that
  rejects its write nothing is recorded, and the next pass writes the file, with the same
  hash and with another.
\<close>

theorem failed_write_leaves_cache_entry_witness:
  "\<not> fileIsUpToDate Map.empty (postFileA ''h1'')
   \<and> writeResolves sampleHost (postFileA ''h1'')
   \<and> writeFileWithWrittenFilesCache sampleHost Map.empty (postFileA ''h1'')
       = (Inr (), [''out/data/Post/a.json'' \<mapsto> ''h1''], [writeOp (postFileA ''h1'')])
   \<and> fst (snd (Promise_all_writeFile sampleHost Map.empty (planOf (singlePost ''h1''))))
        ''out/data/Post/a.json'' = Some ''h1''
   \<and> \<not> writeResolves (rejectingHost ''out/data/Post/a.json'') (postFileA ''h1'')
   \<and> writeFileWithWrittenFilesCache (rejectingHost ''out/data/Post/a.json'') Map.empty (postFileA ''h1'')
       = (Inl (FsException (writeOp (postFileA ''h1''))), Map.empty, [writeOp (postFileA ''h1'')])
   \<and> fst (Promise_all_writeFile (rejectingHost ''out/data/Post/a.json'') Map.empty
             (planOf (singlePost ''h1''))) \<noteq> Inr ()
   \<and> fst (snd (Promise_all_writeFile (rejectingHost ''out/data/Post/a.json'') Map.empty
             (planOf (singlePost ''h1'')))) ''out/data/Post/a.json'' = None
   \<and> writesTo ''out/data/Post/a.json''
        (snd (snd (Promise_all_writeFile sampleHost
           (fst (snd (Promise_all_writeFile (rejectingHost ''out/data/Post/a.json'') Map.empty
                        (planOf (singlePost ''h1'')))))
           (planOf (singlePost ''h1'')))))
       = [writeOp (postFileA ''h1'')]
   \<and> writesTo ''out/data/Post/a.json''
        (snd (snd (Promise_all_writeFile sampleHost
           (fst (snd (Promise_all_writeFile (rejectingHost ''out/data/Post/a.json'') Map.empty
                        (planOf (singlePost ''h1'')))))
           (planOf (singlePost ''h2'')))))
       = [writeOp (postFileA ''h2'')]"
proof -
  have p: "filePath (postFileA ''h1'') = ''out/data/Post/a.json''"
    by (simp add: postFileA_def)
  have h1: "documentHash (postFileA ''h1'') = Some ''h1''"
    and h2: "documentHash (postFileA ''h2'') = Some ''h2''"
    by (simp_all add: postFileA_def)
  have s: "\<not> fileIsUpToDate Map.empty (postFileA ''h1'')"
    by (simp add: fileIsUpToDate_def postFileA_def)
  have ok: "writeResolves sampleHost (postFileA ''h1'')"
    by (simp add: writeResolves_def sampleHost_def)
  have r: "\<not> writeResolves (rejectingHost ''out/data/Post/a.json'') (postFileA ''h1'')"
    by (simp add: writeResolves_def rejectingHost_def postFileA_def)
  have u: "filter (\<lambda>b. filePath b = filePath (postFileA ''h1'')) (planOf (singlePost ''h1''))
             = [postFileA ''h1'']"
    unfolding p by (rule only_postFileA(1))
  have u2: "filter (\<lambda>b. filePath b = filePath (postFileA ''h1'')) (planOf (singlePost ''h2''))
             = [postFileA ''h2'']"
    unfolding p by (rule only_postFileA(2))
  have t: "''h1'' \<noteq> []" by simp
  from failed_write_leaves_cache_entry[OF h1 s u u2 h2, of sampleHost sampleHost] ok t
  have 1: "writeFileWithWrittenFilesCache sampleHost Map.empty (postFileA ''h1'')
             = (Inr (), [filePath (postFileA ''h1'') \<mapsto> ''h1''], [writeOp (postFileA ''h1'')])
           \<and> fst (snd (Promise_all_writeFile sampleHost Map.empty (planOf (singlePost ''h1''))))
                (filePath (postFileA ''h1'')) = Some ''h1''"
    by blast
  from failed_write_leaves_cache_entry[OF h1 s u u2 h2,
      of "rejectingHost ''out/data/Post/a.json''" sampleHost] r
  have 2: "writeFileWithWrittenFilesCache (rejectingHost ''out/data/Post/a.json'') Map.empty
               (postFileA ''h1'')
             = (Inl (FsException (writeOp (postFileA ''h1''))), Map.empty, [writeOp (postFileA ''h1'')])
           \<and> fst (Promise_all_writeFile (rejectingHost ''out/data/Post/a.json'') Map.empty
                   (planOf (singlePost ''h1''))) \<noteq> Inr ()
           \<and> fst (snd (Promise_all_writeFile (rejectingHost ''out/data/Post/a.json'') Map.empty
                   (planOf (singlePost ''h1'')))) (filePath (postFileA ''h1'')) = Map.empty (filePath (postFileA ''h1''))
           \<and> writesTo (filePath (postFileA ''h1''))
                (snd (snd (Promise_all_writeFile sampleHost
                   (fst (snd (Promise_all_writeFile (rejectingHost ''out/data/Post/a.json'') Map.empty
                                (planOf (singlePost ''h1'')))))
                   (planOf (singlePost ''h2'')))))
               = (if Map.empty (filePath (postFileA ''h1'')) = Some ''h2'' then []
                  else [writeOp (postFileA ''h2'')])
           \<and> writesTo (filePath (postFileA ''h1''))
                (snd (snd (Promise_all_writeFile sampleHost
                   (fst (snd (Promise_all_writeFile (rejectingHost ''out/data/Post/a.json'') Map.empty
                                (planOf (singlePost ''h1'')))))
                   (planOf (singlePost ''h1'')))))
               = [writeOp (postFileA ''h1'')]"
    by blast
  from 1 2 s ok r show ?thesis unfolding p by simp
qed

text \<open>
  Against C6 as stated, for every supplied hash. With the empty string as hash the write
  resolves, the pass succeeds and no entry is recorded for the path. After a rejected
  write of the hash \<^verbatim>\<open>h1\<close> over the entry \<^verbatim>\<open>h0\<close>, the entry left is \<^verbatim>\<open>h0\<close>, and the next
  pass, where the document comes with \<^verbatim>\<open>h0\<close> again, does not write the file. And of two
  documents that share a data file, the write of one is rejected and the entry of the path
  changes all the same, to the hash of the other.
\<close>

theorem recorded_after_write_counterexample:
  "fst (firstPass sampleHost (singlePost [])) = Inr ()
   \<and> writesTo ''out/data/Post/a.json'' (snd (snd (firstPass sampleHost (singlePost []))))
      = [writeOp (postFileA [])]
   \<and> fst (snd (firstPass sampleHost (singlePost []))) ''out/data/Post/a.json'' = None
   \<and> fst (snd (firstPass sampleHost (singlePost ''h0''))) ''out/data/Post/a.json'' = Some ''h0''
   \<and> fst (secondPass sampleHost (singlePost ''h0'')
             (rejectingHost ''out/data/Post/a.json'') (singlePost ''h1''))
      = Inl (UnknownFSError (FsException (writeOp (postFileA ''h1''))))
   \<and> fst (snd (secondPass sampleHost (singlePost ''h0'')
             (rejectingHost ''out/data/Post/a.json'') (singlePost ''h1'')))
        ''out/data/Post/a.json'' = Some ''h0''
   \<and> fst (thirdPass sampleHost (singlePost ''h0'')
             (rejectingHost ''out/data/Post/a.json'') (singlePost ''h1'')
             sampleHost (singlePost ''h0'')) = Inr ()
   \<and> writesTo ''out/data/Post/a.json''
        (snd (snd (thirdPass sampleHost (singlePost ''h0'')
             (rejectingHost ''out/data/Post/a.json'') (singlePost ''h1'')
             sampleHost (singlePost ''h0'')))) = []
   \<and> fst (firstPass
             (contentRejectingHost
                (JSON_stringify (JObject [(''_id'', JString ''a/b''), (''type'', JString ''Post'')]) 2))
             collidingSnapshot)
      = Inl (UnknownFSError (FsException (WriteFile ''out/data/Post/a__b.json''
               (JSON_stringify (JObject [(''_id'', JString ''a/b''), (''type'', JString ''Post'')]) 2))))
   \<and> fst (snd (firstPass
             (contentRejectingHost
                (JSON_stringify (JObject [(''_id'', JString ''a/b''), (''type'', JString ''Post'')]) 2))
             collidingSnapshot)) ''out/data/Post/a__b.json'' = Some ''h2''"
  by code_simp



section \<open>The planned files\<close>

lemma mapThrowing_Inr_D:
  "mapThrowing f xs = Inr ys \<Longrightarrow> list_all2 (\<lambda>x y. f x = Inr y) xs ys"
  by (induction xs arbitrary: ys) (auto split: sum.splits)

lemma mapThrowing_Inl:
  "mapThrowing f xs = Inl e \<Longrightarrow> \<exists>x\<in>set xs. f x = Inl e"
  by (induction xs) (auto split: sum.splits)

lemma mapThrowing_fails:
  "x \<in> set xs \<Longrightarrow> f x = Inl e \<Longrightarrow> \<exists>e'. mapThrowing f xs = Inl e'"
  by (induction xs) (auto split: sum.splits)

lemma mapThrowing_succeeds:
  "(\<forall>x\<in>set xs. \<exists>y. f x = Inr y) \<Longrightarrow> \<exists>ys. mapThrowing f xs = Inr ys"
  by (induction xs) (auto split: sum.splits)

lemma mapThrowing_succeeds_iff:
  "(\<exists>ys. mapThrowing f xs = Inr ys) \<longleftrightarrow> (\<forall>x\<in>set xs. \<exists>y. f x = Inr y)"
proof
  assume "\<exists>ys. mapThrowing f xs = Inr ys"
  then obtain ys where "list_all2 (\<lambda>x y. f x = Inr y) xs ys"
    using mapThrowing_Inr_D by blast
  then show "\<forall>x\<in>set xs. \<exists>y. f x = Inr y"
    by (induction rule: list_all2_induct) auto
next
  assume "\<forall>x\<in>set xs. \<exists>y. f x = Inr y"
  then show "\<exists>ys. mapThrowing f xs = Inr ys" by (rule mapThrowing_succeeds)
qed

lemma makeDataExportFile_error:
  "makeDataExportFile ext docDef ids = Inl e \<Longrightarrow> e = TypeError \<and> isSingleton docDef \<and> ids = []"
  by (auto simp: makeDataExportFile_def Let_def split: list.splits if_splits)

lemma makeDataExportFile_empty_singleton:
  "isSingleton docDef \<Longrightarrow> makeDataExportFile ext docDef [] = Inl TypeError"
  by (simp add: makeDataExportFile_def)

lemma documentIdsOf_empty_iff:
  "documentIdsOf tnf docDef docs = []
     \<longleftrightarrow> (\<forall>d\<in>set docs. map_of (doc_props d) tnf \<noteq> Some (JString (name docDef)))"
  by (auto simp: documentIdsOf_def filter_empty_conv)

lemma dataBarrelFile_error:
  "dataBarrelFile ext targetPath tnf docs docDef = Inl e \<Longrightarrow>
     e = TypeError \<and> isSingleton docDef \<and> documentIdsOf tnf docDef docs = []"
  by (auto simp: dataBarrelFile_def split: sum.splits dest: makeDataExportFile_error)

lemma dataBarrelFile_hash:
  "dataBarrelFile ext targetPath tnf docs docDef = Inr b \<Longrightarrow> documentHash b = None"
  by (auto simp: dataBarrelFile_def split: sum.splits)

lemma dataBarrelFiles_error:
  "dataBarrelFiles ext targetPath tnf defs docs = Inl e \<Longrightarrow> e = TypeError"
  unfolding dataBarrelFiles_def
  by (drule mapThrowing_Inl) (auto dest: dataBarrelFile_error)

lemma dataBarrelFiles_fails:
  assumes "docDef \<in> set defs" and "isSingleton docDef"
    and "\<forall>d\<in>set docs. map_of (doc_props d) tnf \<noteq> Some (JString (name docDef))"
  shows "dataBarrelFiles ext targetPath tnf defs docs = Inl TypeError"
proof -
  have "dataBarrelFile ext targetPath tnf docs docDef = Inl TypeError"
    using assms(2,3)
    by (simp add: dataBarrelFile_def makeDataExportFile_empty_singleton
        documentIdsOf_empty_iff[THEN iffD2])
  from mapThrowing_fails[of docDef defs "dataBarrelFile ext targetPath tnf docs", OF assms(1) this]
  obtain e where "dataBarrelFiles ext targetPath tnf defs docs = Inl e"
    unfolding dataBarrelFiles_def by blast
  then show ?thesis using dataBarrelFiles_error by blast
qed

lemma barrels_shape:
  assumes "dataBarrelFiles ext targetPath tnf defs docs = Inr barrels"
  shows "length barrels = length defs \<and> (\<forall>b\<in>set barrels. documentHash b = None)"
proof -
  from assms have l: "list_all2 (\<lambda>x y. dataBarrelFile ext targetPath tnf docs x = Inr y) defs barrels"
    by (simp add: dataBarrelFiles_def mapThrowing_Inr_D)
  then have "length barrels = length defs" by (simp add: list_all2_lengthD)
  moreover have "\<forall>b\<in>set barrels. documentHash b = None"
  proof
    fix b assume "b \<in> set barrels"
    then obtain i where "i < length barrels" "barrels ! i = b"
      by (auto simp: in_set_conv_nth)
    with l have "dataBarrelFile ext targetPath tnf docs (defs ! i) = Inr b"
      by (auto dest: list_all2_nthD2)
    then show "documentHash b = None" by (rule dataBarrelFile_hash)
  qed
  ultimately show ?thesis by simp
qed

lemma plannedFiles_Inr:
  assumes "plannedFiles ext cache schemaDef targetPath go = Inr files"
  shows "\<exists>barrels jsons.
           files = staticFiles ext schemaDef targetPath go @ barrels @ jsons
           \<and> dataBarrelFiles ext targetPath (typeFieldName (fieldOptions (options go)))
                 (map snd (documentTypeDefMap schemaDef))
                 (map document (map snd (cacheItemsMap cache))) = Inr barrels
           \<and> dataJsonFiles targetPath (typeFieldName (fieldOptions (options go)))
                 (map snd (cacheItemsMap cache)) = Inr jsons"
  using assms by (auto simp: plannedFiles_def Let_def split: sum.splits)

lemma length_staticFiles: "length (staticFiles ext schemaDef targetPath go) = 5"
  by (simp add: staticFiles_def)

lemma staticFiles_hash: "a \<in> set (staticFiles ext schemaDef targetPath go) \<Longrightarrow> documentHash a = None"
  by (auto simp: staticFiles_def)


lemma dataBarrelFile_succeeds_iff:
  "(\<exists>b. dataBarrelFile ext targetPath tnf docs d = Inr b)
     \<longleftrightarrow> (isSingleton d \<longrightarrow> (\<exists>x\<in>set docs. map_of (doc_props x) tnf = Some (JString (name d))))"
proof (cases "dataBarrelFile ext targetPath tnf docs d")
  case (Inl e)
  from dataBarrelFile_error[OF this] show ?thesis
    using Inl by (auto simp: documentIdsOf_empty_iff)
next
  case (Inr b)
  have "\<not> (isSingleton d \<and> documentIdsOf tnf d docs = [])"
  proof
    assume "isSingleton d \<and> documentIdsOf tnf d docs = []"
    then have "dataBarrelFile ext targetPath tnf docs d = Inl TypeError"
      by (simp add: dataBarrelFile_def makeDataExportFile_empty_singleton)
    with Inr show False by simp
  qed
  then show ?thesis using Inr by (auto simp: documentIdsOf_empty_iff)
qed

lemma dataJsonFile_succeeds_iff:
  "(\<exists>a. dataJsonFile targetPath tnf item = Inr a)
     \<longleftrightarrow> (\<exists>t. map_of (doc_props (document item)) tnf = Some (JString t))"
  by (auto simp: dataJsonFile_def split: option.splits json.splits)

lemma dataJsonFile_Inr:
  "dataJsonFile targetPath tnf item = Inr a \<Longrightarrow>
     \<exists>t. map_of (doc_props (document item)) tnf = Some (JString t)
       \<and> a = \<lparr>filePath = withPrefix targetPath
                            [''data'', t, idToFileName (doc_id (document item)) @ ''.json''],
              content = JSON_stringify (JObject (doc_props (document item))) 2,
              documentHash = Some (item_documentHash item)\<rparr>"
  by (auto simp: dataJsonFile_def split: option.splits json.splits)

lemma plannedFiles_succeeds_iff:
  "(\<exists>files. plannedFiles ext cache schemaDef targetPath go = Inr files) \<longleftrightarrow>
     (\<exists>barrels. dataBarrelFiles ext targetPath (typeFieldName (fieldOptions (options go)))
                 (map snd (documentTypeDefMap schemaDef))
                 (map document (map snd (cacheItemsMap cache))) = Inr barrels)
     \<and> (\<exists>jsons. dataJsonFiles targetPath (typeFieldName (fieldOptions (options go)))
                 (map snd (cacheItemsMap cache)) = Inr jsons)"
  by (auto simp: plannedFiles_def Let_def split: sum.splits)


lemma plan_unmatched:
  "plannedFiles sampleExternals unmatchedSnapshot postSchema ''out'' sampleOptions
     = Inr (planOf unmatchedSnapshot)"
  by code_simp

text \<open>
  C2 (amended). The planned files are a function of the schema and of the snapshot as it
  enumerates its documents. The identifiers handed to a type's barrel are those of the
  matching documents in snapshot order; a collection's barrel imports them and lists them
  in its exported array in that order, unsorted; the list is sorted whenever the snapshot
  enumerates its documents in sorted identifier order.
\<close>

theorem barrel_members_follow_snapshot_order:
  assumes "\<not> isSingleton docDef"
  shows "documentIdsOf tnf docDef (map document (map snd (cacheItemsMap cache)))
           = map (\<lambda>(i, item). doc_id (document item))
               (filter (\<lambda>(i, item). map_of (doc_props (document item)) tnf
                                        = Some (JString (name docDef)))
                  (cacheItemsMap cache))
         \<and> dataBarrelFile ext targetPath tnf docs docDef
             = Inr \<lparr>filePath =
                      withPrefix targetPath [''data'', getDataVariableName ext docDef @ ''.mjs''],
                    content =
                      template
                        [''// '' @ autogeneratedNote ext,
                         [],
                         join_with nl
                           (map (\<lambda>i. ''import '' @ makeVariableName ext i @ '' from '' @ apos
                                   @ ''./'' @ name docDef @ ''/'' @ idToFileName i @ ''.json'' @ apos)
                              (documentIdsOf tnf docDef docs)),
                         [],
                         ''export const '' @ getDataVariableName ext docDef @ '' = [''
                           @ join_with '', '' (map (makeVariableName ext) (documentIdsOf tnf docDef docs))
                           @ '']''],
                    documentHash = None\<rparr>
         \<and> (sorted (map doc_id docs) \<longrightarrow> sorted (documentIdsOf tnf docDef docs))"
proof -
  have 1: "documentIdsOf tnf docDef (map document (map snd (cacheItemsMap cache)))
           = map (\<lambda>(i, item). doc_id (document item))
               (filter (\<lambda>(i, item). map_of (doc_props (document item)) tnf
                                        = Some (JString (name docDef)))
                  (cacheItemsMap cache))"
    by (simp add: documentIdsOf_def filter_map comp_def case_prod_unfold)
  have 2: "dataBarrelFile ext targetPath tnf docs docDef
             = Inr \<lparr>filePath =
                      withPrefix targetPath [''data'', getDataVariableName ext docDef @ ''.mjs''],
                    content =
                      template
                        [''// '' @ autogeneratedNote ext,
                         [],
                         join_with nl
                           (map (\<lambda>i. ''import '' @ makeVariableName ext i @ '' from '' @ apos
                                   @ ''./'' @ name docDef @ ''/'' @ idToFileName i @ ''.json'' @ apos)
                              (documentIdsOf tnf docDef docs)),
                         [],
                         ''export const '' @ getDataVariableName ext docDef @ '' = [''
                           @ join_with '', '' (map (makeVariableName ext) (documentIdsOf tnf docDef docs))
                           @ '']''],
                    documentHash = None\<rparr>"
    using assms by (simp add: dataBarrelFile_def makeDataExportFile_def Let_def)
  have 3: "sorted (map doc_id docs) \<longrightarrow> sorted (documentIdsOf tnf docDef docs)"
    by (simp add: documentIdsOf_def sorted_filter)
  from 1 2 3 show ?thesis by blast
qed

text \<open>A snapshot that enumerates \<^verbatim>\<open>a\<close> before \<^verbatim>\<open>b\<close>.\<close>

theorem barrel_members_follow_snapshot_order_witness:
  "\<not> isSingleton postDef
   \<and> sorted (map doc_id (map document (map snd (cacheItemsMap sortedSnapshot))))
   \<and> documentIdsOf ''type'' postDef (map document (map snd (cacheItemsMap sortedSnapshot)))
       = [''a'', ''b'']
   \<and> sorted (documentIdsOf ''type'' postDef (map document (map snd (cacheItemsMap sortedSnapshot))))
   \<and> map_sum (\<lambda>e. e) content (dataBarrelFile sampleExternals ''out'' ''type''
        (map document (map snd (cacheItemsMap sortedSnapshot))) postDef)
       = Inr (template
           [''// NOTE This file is auto-generated by Contentlayer'',
            [],
            ''import a from '' @ apos @ ''./Post/a.json'' @ apos,
            ''import b from '' @ apos @ ''./Post/b.json'' @ apos,
            [],
            ''export const allPosts = [a, b]''])"
proof -
  have n: "\<not> isSingleton postDef" by (simp add: postDef_def)
  have s: "sorted (map doc_id (map document (map snd (cacheItemsMap sortedSnapshot))))"
    by code_simp
  have i: "documentIdsOf ''type'' postDef (map document (map snd (cacheItemsMap sortedSnapshot)))
       = [''a'', ''b'']"
    by code_simp
  have c: "map_sum (\<lambda>e. e) content (dataBarrelFile sampleExternals ''out'' ''type''
        (map document (map snd (cacheItemsMap sortedSnapshot))) postDef)
       = Inr (template
           [''// NOTE This file is auto-generated by Contentlayer'',
            [],
            ''import a from '' @ apos @ ''./Post/a.json'' @ apos,
            ''import b from '' @ apos @ ''./Post/b.json'' @ apos,
            [],
            ''export const allPosts = [a, b]''])"
    by code_simp
  from barrel_members_follow_snapshot_order[OF n, of "''type''" sortedSnapshot sampleExternals "''out''"
      "map document (map snd (cacheItemsMap sortedSnapshot))"]
  have "sorted (documentIdsOf ''type'' postDef (map document (map snd (cacheItemsMap sortedSnapshot))))"
    using s by blast
  with n s i c show ?thesis by simp
qed

text \<open>
  Against C2 as stated: the same two cache items enumerated \<^verbatim>\<open>b\<close> first give another
  plan, and the barrel lists \<^verbatim>\<open>b\<close> before \<^verbatim>\<open>a\<close>.
\<close>

theorem snapshot_order_counterexample:
  "set (cacheItemsMap unsortedSnapshot) = set (cacheItemsMap sortedSnapshot)
   \<and> planOf unsortedSnapshot \<noteq> planOf sortedSnapshot
   \<and> documentIdsOf ''type'' postDef (map document (map snd (cacheItemsMap unsortedSnapshot)))
       = [''b'', ''a'']
   \<and> \<not> sorted (documentIdsOf ''type'' postDef
                  (map document (map snd (cacheItemsMap unsortedSnapshot))))
   \<and> map_sum (\<lambda>e. e) content (dataBarrelFile sampleExternals ''out'' ''type''
        (map document (map snd (cacheItemsMap unsortedSnapshot))) postDef)
       = Inr (template
           [''// NOTE This file is auto-generated by Contentlayer'',
            [],
            ''import b from '' @ apos @ ''./Post/b.json'' @ apos,
            ''import a from '' @ apos @ ''./Post/a.json'' @ apos,
            [],
            ''export const allPosts = [b, a]''])"
  by code_simp

text \<open>
  C4. If the schema has a singleton type that no document of the snapshot matches,
  planning throws a \<^verbatim>\<open>TypeError\<close>, the pass fails with it wrapped as an
  \<^verbatim>\<open>UnknownFSError\<close> (or with the error of the debug dump, where that is on and fails
  first), the cache is untouched, nothing but the debug dump is written, and the stream
  yields the failure for that snapshot.
\<close>

theorem singleton_without_document_fails:
  assumes "(k, docDef) \<in> set (documentTypeDefMap schemaDef)" and "isSingleton docDef"
    and "\<forall>(i, item)\<in>set (cacheItemsMap cache).
           map_of (doc_props (document item)) (typeFieldName (fieldOptions (options go)))
             \<noteq> Some (JString (name docDef))"
  shows "plannedFiles ext cache schemaDef targetPath go = Inl TypeError
         \<and> writeFilesForCache ext h cache schemaDef targetPath go wfc
             = (Inl (UnknownFSError
                      (case fst (debugDump ext h cache schemaDef targetPath) of
                         Inl e \<Rightarrow> e | Inr _ \<Rightarrow> TypeError)),
                wfc, snd (debugDump ext h cache schemaDef targetPath))
         \<and> fst (hd (mapSnapshots ext schemaDef targetPath go wfc ((h, Inr cache) # rest)))
             = Inl (UnknownFSError
                      (case fst (debugDump ext h cache schemaDef targetPath) of
                         Inl e \<Rightarrow> e | Inr _ \<Rightarrow> TypeError))"
proof -
  have d: "docDef \<in> set (map snd (documentTypeDefMap schemaDef))"
    using assms(1) by force
  have n: "\<forall>d\<in>set (map document (map snd (cacheItemsMap cache))).
             map_of (doc_props d) (typeFieldName (fieldOptions (options go)))
               \<noteq> Some (JString (name docDef))"
    using assms(3) by auto
  have p: "plannedFiles ext cache schemaDef targetPath go = Inl TypeError"
    using dataBarrelFiles_fails[OF d assms(2) n] by (simp add: plannedFiles_def Let_def)
  have w: "writeFilesForCache ext h cache schemaDef targetPath go wfc
             = (Inl (UnknownFSError
                      (case fst (debugDump ext h cache schemaDef targetPath) of
                         Inl e \<Rightarrow> e | Inr _ \<Rightarrow> TypeError)),
                wfc, snd (debugDump ext h cache schemaDef targetPath))"
    by (cases "debugDump ext h cache schemaDef targetPath")
       (auto simp: writeFilesForCache_def writeFilesForCache'_def p split: sum.splits)
  from p w show ?thesis by simp
qed

text \<open>The singleton \<^verbatim>\<open>Config\<close> and a snapshot whose only document is a \<^verbatim>\<open>Post\<close>.\<close>

theorem singleton_without_document_fails_witness:
  "isSingleton configDef
   \<and> map_of [(''_id'', JString ''a''), (''type'', JString ''Post'')] ''type''
        \<noteq> Some (JString (name configDef))
   \<and> plannedFiles sampleExternals (singlePost ''h1'') configSchema ''out'' sampleOptions
       = Inl TypeError
   \<and> writeFilesForCache sampleExternals sampleHost (singlePost ''h1'') configSchema ''out''
         sampleOptions Map.empty
       = (Inl (UnknownFSError TypeError), Map.empty, [])"
proof -
  have m: "(''Config'', configDef) \<in> set (documentTypeDefMap configSchema)"
    by (simp add: configSchema_def)
  have s: "isSingleton configDef" by (simp add: configDef_def)
  have n: "\<forall>(i, item)\<in>set (cacheItemsMap (singlePost ''h1'')).
           map_of (doc_props (document item)) (typeFieldName (fieldOptions (options sampleOptions)))
             \<noteq> Some (JString (name configDef))"
    by (simp add: singlePost_def sampleItem_def sampleOptions_def configDef_def)
  have d: "debugDump sampleExternals sampleHost (singlePost ''h1'') configSchema ''out'' = (Inr (), [])"
    by (simp add: debugDump_def sampleHost_def)
  from singleton_without_document_fails[OF m s n, of sampleExternals "''out''" sampleHost Map.empty]
  show ?thesis using s by (simp add: d configDef_def)
qed



text \<open>
  C10 (amended). Planning completes exactly when every singleton type has a matching
  document and every document has a string as discriminant. Whenever it completes, the
  plan holds, after the files without hash (five and one barrel for each type), exactly
  one data file for each cache item, in snapshot order, at the path
  \<^verbatim>\<open>data/<discriminant>/<idToFileName(_id)>.json\<close>, with the document printed as JSON
  indented by two spaces and with the item's hash, whether or not the discriminant names a
  type of the schema.
\<close>

theorem one_data_file_per_cache_item:
  "((\<exists>files. plannedFiles ext cache schemaDef targetPath go = Inr files) \<longleftrightarrow>
      (\<forall>(k, d)\<in>set (documentTypeDefMap schemaDef).
          isSingleton d \<longrightarrow>
            (\<exists>(i, item)\<in>set (cacheItemsMap cache).
                map_of (doc_props (document item)) (typeFieldName (fieldOptions (options go)))
                  = Some (JString (name d))))
      \<and> (\<forall>(i, item)\<in>set (cacheItemsMap cache).
            \<exists>t. map_of (doc_props (document item)) (typeFieldName (fieldOptions (options go)))
                  = Some (JString t)))
   \<and> (\<forall>files. plannedFiles ext cache schemaDef targetPath go = Inr files \<longrightarrow>
         (\<forall>a\<in>set (take (5 + length (documentTypeDefMap schemaDef)) files). documentHash a = None)
         \<and> list_all2
             (\<lambda>(i, item) a.
                \<exists>t. map_of (doc_props (document item)) (typeFieldName (fieldOptions (options go)))
                       = Some (JString t)
                  \<and> a = \<lparr>filePath =
                            withPrefix targetPath
                              [''data'', t, idToFileName (doc_id (document item)) @ ''.json''],
                          content = JSON_stringify (JObject (doc_props (document item))) 2,
                          documentHash = Some (item_documentHash item)\<rparr>)
             (cacheItemsMap cache)
             (drop (5 + length (documentTypeDefMap schemaDef)) files))"
proof -
  let ?tnf = "typeFieldName (fieldOptions (options go))"
  let ?defs = "map snd (documentTypeDefMap schemaDef)"
  let ?items = "map snd (cacheItemsMap cache)"
  let ?docs = "map document ?items"
  have barrels: "(\<exists>barrels. dataBarrelFiles ext targetPath ?tnf ?defs ?docs = Inr barrels) \<longleftrightarrow>
      (\<forall>(k, d)\<in>set (documentTypeDefMap schemaDef).
          isSingleton d \<longrightarrow>
            (\<exists>(i, item)\<in>set (cacheItemsMap cache).
                map_of (doc_props (document item)) ?tnf = Some (JString (name d))))"
    unfolding dataBarrelFiles_def mapThrowing_succeeds_iff dataBarrelFile_succeeds_iff
    by (auto simp: split_beta)
  have jsons: "(\<exists>jsons. dataJsonFiles targetPath ?tnf ?items = Inr jsons) \<longleftrightarrow>
      (\<forall>(i, item)\<in>set (cacheItemsMap cache).
            \<exists>t. map_of (doc_props (document item)) ?tnf = Some (JString t))"
    unfolding dataJsonFiles_def mapThrowing_succeeds_iff dataJsonFile_succeeds_iff
    by (auto simp: split_beta)
  have first: "(\<exists>files. plannedFiles ext cache schemaDef targetPath go = Inr files) \<longleftrightarrow>
      (\<forall>(k, d)\<in>set (documentTypeDefMap schemaDef).
          isSingleton d \<longrightarrow>
            (\<exists>(i, item)\<in>set (cacheItemsMap cache).
                map_of (doc_props (document item)) ?tnf = Some (JString (name d))))
      \<and> (\<forall>(i, item)\<in>set (cacheItemsMap cache).
            \<exists>t. map_of (doc_props (document item)) ?tnf = Some (JString t))"
    unfolding plannedFiles_succeeds_iff barrels jsons ..
  have second: "(\<forall>a\<in>set (take (5 + length (documentTypeDefMap schemaDef)) files). documentHash a = None)
         \<and> list_all2
             (\<lambda>(i, item) a.
                \<exists>t. map_of (doc_props (document item)) ?tnf = Some (JString t)
                  \<and> a = \<lparr>filePath =
                            withPrefix targetPath
                              [''data'', t, idToFileName (doc_id (document item)) @ ''.json''],
                          content = JSON_stringify (JObject (doc_props (document item))) 2,
                          documentHash = Some (item_documentHash item)\<rparr>)
             (cacheItemsMap cache)
             (drop (5 + length (documentTypeDefMap schemaDef)) files)"
    if plan: "plannedFiles ext cache schemaDef targetPath go = Inr files" for files
  proof -
    from plannedFiles_Inr[OF plan] obtain bs js where
      f: "files = staticFiles ext schemaDef targetPath go @ bs @ js"
      and b: "dataBarrelFiles ext targetPath ?tnf ?defs ?docs = Inr bs"
      and j: "dataJsonFiles targetPath ?tnf ?items = Inr js"
      by blast
    from barrels_shape[OF b] have lb: "length bs = length (documentTypeDefMap schemaDef)"
      and hb: "\<forall>b\<in>set bs. documentHash b = None" by simp_all
    have t: "take (5 + length (documentTypeDefMap schemaDef)) files
               = staticFiles ext schemaDef targetPath go @ bs"
      by (simp add: f length_staticFiles lb)
    have d: "drop (5 + length (documentTypeDefMap schemaDef)) files = js"
      by (simp add: f length_staticFiles lb)
    have 1: "\<forall>a\<in>set (take (5 + length (documentTypeDefMap schemaDef)) files). documentHash a = None"
      unfolding t using hb staticFiles_hash by auto
    from j have "list_all2 (\<lambda>x y. dataJsonFile targetPath ?tnf x = Inr y) ?items js"
      by (simp add: dataJsonFiles_def mapThrowing_Inr_D)
    then have "list_all2 (\<lambda>x y. dataJsonFile targetPath ?tnf (snd x) = Inr y) (cacheItemsMap cache) js"
      by (simp add: list_all2_map1)
    then have 2: "list_all2
             (\<lambda>(i, item) a.
                \<exists>t. map_of (doc_props (document item)) ?tnf = Some (JString t)
                  \<and> a = \<lparr>filePath =
                            withPrefix targetPath
                              [''data'', t, idToFileName (doc_id (document item)) @ ''.json''],
                          content = JSON_stringify (JObject (doc_props (document item))) 2,
                          documentHash = Some (item_documentHash item)\<rparr>)
             (cacheItemsMap cache) js"
      by (rule list_all2_mono) (auto dest: dataJsonFile_Inr)
    from 1 2 show ?thesis unfolding d by simp
  qed
  from first second show ?thesis by blast
qed

text \<open>
  The schema of \<^verbatim>\<open>Post\<close> and a snapshot with a \<^verbatim>\<open>Post\<close> and a \<^verbatim>\<open>Note\<close>: a data file
  for each.
\<close>

theorem one_data_file_per_cache_item_witness:
  "plannedFiles sampleExternals unmatchedSnapshot postSchema ''out'' sampleOptions
     = Inr (planOf unmatchedSnapshot)
   \<and> length (planOf unmatchedSnapshot) = 8
   \<and> drop 6 (planOf unmatchedSnapshot)
       = [\<lparr>filePath = withPrefix ''out'' [''data'', ''Post'', idToFileName ''a'' @ ''.json''],
           content = JSON_stringify (JObject [(''_id'', JString ''a''), (''type'', JString ''Post'')]) 2,
           documentHash = Some ''h1''\<rparr>,
          \<lparr>filePath = withPrefix ''out'' [''data'', ''Note'', idToFileName ''x'' @ ''.json''],
           content = JSON_stringify (JObject [(''_id'', JString ''x''), (''type'', JString ''Note'')]) 2,
           documentHash = Some ''h3''\<rparr>]
   \<and> map filePath (drop 6 (planOf unmatchedSnapshot))
       = [''out/data/Post/a.json'', ''out/data/Note/x.json'']"
proof -
  have l: "length (planOf unmatchedSnapshot) = 8
     \<and> map filePath (drop 6 (planOf unmatchedSnapshot))
       = [''out/data/Post/a.json'', ''out/data/Note/x.json'']"
    by code_simp
  from one_data_file_per_cache_item[of sampleExternals unmatchedSnapshot postSchema "''out''" sampleOptions]
  have "list_all2
             (\<lambda>(i, item) a.
                \<exists>t. map_of (doc_props (document item)) (typeFieldName (fieldOptions (options sampleOptions)))
                       = Some (JString t)
                  \<and> a = \<lparr>filePath =
                            withPrefix ''out''
                              [''data'', t, idToFileName (doc_id (document item)) @ ''.json''],
                          content = JSON_stringify (JObject (doc_props (document item))) 2,
                          documentHash = Some (item_documentHash item)\<rparr>)
             (cacheItemsMap unmatchedSnapshot)
             (drop (5 + length (documentTypeDefMap postSchema)) (planOf unmatchedSnapshot))"
    using plan_unmatched by blast
  then have "drop 6 (planOf unmatchedSnapshot)
       = [\<lparr>filePath = withPrefix ''out'' [''data'', ''Post'', idToFileName ''a'' @ ''.json''],
           content = JSON_stringify (JObject [(''_id'', JString ''a''), (''type'', JString ''Post'')]) 2,
           documentHash = Some ''h1''\<rparr>,
          \<lparr>filePath = withPrefix ''out'' [''data'', ''Note'', idToFileName ''x'' @ ''.json''],
           content = JSON_stringify (JObject [(''_id'', JString ''x''), (''type'', JString ''Note'')]) 2,
           documentHash = Some ''h3''\<rparr>]"
    by (simp add: unmatchedSnapshot_def sampleItem_def sampleOptions_def postSchema_def
        list_all2_Cons1)
  with l plan_unmatched show ?thesis by simp
qed

text \<open>
  Against C10 as stated, for every snapshot: under a schema whose only type is the
  singleton \<^verbatim>\<open>Config\<close>, the document of type \<^verbatim>\<open>Post\<close> matches no type, planning throws
  and no data file is planned or written.
\<close>

theorem unmatched_document_counterexample:
  "map_of (doc_props (document (snd (sampleItem ''a'' ''Post'' ''h1'')))) ''type''
     = Some (JString ''Post'')
   \<and> map name (map snd (documentTypeDefMap configSchema)) = [''Config'']
   \<and> plannedFiles sampleExternals (singlePost ''h1'') configSchema ''out'' sampleOptions
       = Inl TypeError
   \<and> snd (snd (writeFilesForCache sampleExternals sampleHost (singlePost ''h1'') configSchema ''out''
         sampleOptions Map.empty)) = []"
  by code_simp

section \<open>The reported summary\<close>

lemma length_mapSnapshots:
  "length (mapSnapshots ext schemaDef targetPath go wfc snaps) = length snaps"
  by (induction snaps arbitrary: wfc) (auto split: sum.splits prod.splits)

lemma mapSnapshots_nth:
  "i < length snaps \<Longrightarrow>
   fst (mapSnapshots ext schemaDef targetPath go wfc snaps ! i) = Inr info \<Longrightarrow>
   \<exists>h cache. snaps ! i = (h, Inr cache) \<and> documentCount info = length (cacheItemsMap cache)"
proof (induction snaps arbitrary: wfc i)
  case Nil
  then show ?case by simp
next
  case (Cons s snaps)
  obtain h fetched where s: "s = (h, fetched)" by (cases s)
  show ?case
  proof (cases i)
    case 0
    with Cons.prems s show ?thesis
      by (auto split: sum.splits prod.splits)
  next
    case (Suc j)
    with Cons.prems s have "j < length snaps"
      and "\<exists>wfc'. fst (mapSnapshots ext schemaDef targetPath go wfc' snaps ! j) = Inr info"
      by (auto split: sum.splits prod.splits)
    with Cons.IH Suc show ?thesis by auto
  qed
qed

text \<open>
  C8. Every success the stream reports is the outcome of the pass over the snapshot at the
  same position, and its document count is the number of cache items of that snapshot.
\<close>

theorem documentCount_is_snapshot_size:
  assumes "i < length (generateDotpkgStream ext source artifactsDirMkdir)"
    and "fst (generateDotpkgStream ext source artifactsDirMkdir ! i) = Inr info"
  shows "i < length (fetchData source)
         \<and> (\<exists>h cache. fetchData source ! i = (h, Inr cache)
               \<and> documentCount info = length (cacheItemsMap cache))"
proof (cases "resolveParams (provideSchema source) artifactsDirMkdir")
  case (Inl e)
  with assms show ?thesis
    by (simp add: generateDotpkgStream_def)
next
  case (Inr r)
  obtain schemaDef targetPath where r: "r = (schemaDef, targetPath)" by (cases r)
  let ?go = "\<lparr>sourcePluginType = source_type source, options = source_options source\<rparr>"
  have g: "generateDotpkgStream ext source artifactsDirMkdir
             = mapSnapshots ext schemaDef targetPath ?go Map.empty (fetchData source)"
    using Inr r by (simp add: generateDotpkgStream_def)
  from assms(1) have i: "i < length (fetchData source)"
    by (simp add: g length_mapSnapshots)
  from mapSnapshots_nth[OF i] assms(2) i show ?thesis
    unfolding g by blast
qed

text \<open>The stream over the one snapshot of two documents.\<close>

theorem documentCount_is_snapshot_size_witness:
  "0 < length (generateDotpkgStream sampleExternals sampleSource (Inr ''out''))
   \<and> fst (generateDotpkgStream sampleExternals sampleSource (Inr ''out'') ! 0)
       = Inr \<lparr>documentCount = 2\<rparr>
   \<and> fetchData sampleSource ! 0 = (sampleHost, Inr scenarioSnapshot)
   \<and> documentCount \<lparr>documentCount = 2\<rparr> = length (cacheItemsMap scenarioSnapshot)"
proof -
  have l: "0 < length (generateDotpkgStream sampleExternals sampleSource (Inr ''out''))"
    by code_simp
  have r: "fst (generateDotpkgStream sampleExternals sampleSource (Inr ''out'') ! 0)
       = Inr \<lparr>documentCount = 2\<rparr>"
    by code_simp
  have f: "fetchData sampleSource ! 0 = (sampleHost, Inr scenarioSnapshot)"
    by (simp add: sampleSource_def)
  from documentCount_is_snapshot_size[OF l r] f l r
  show ?thesis by auto
qed

end
